theory Spec2Isabelle
  imports Complex_Main "HOL-Library.Word" "HOL-Library.AList" "HOL-Library.Sublist"
begin

section \<open>JavaScript strings\<close>

text \<open>
  A JavaScript string is a sequence of UTF-16 code units; \<open>s.length\<close> counts code units.
  The built-ins the sources call (\<open>trim\<close>, \<open>replace\<close> with the two regular expressions,
  \<open>split\<close>, \<open>slice\<close>, \<open>indexOf\<close>, \<open>Buffer.byteLength\<close>, \<open>path.basename\<close>) are
  written out on code-unit lists.
\<close>

type_synonym jschar = "16 word"
type_synonym jsstring = "jschar list"

text \<open>Embedding of an 8-bit literal, to write concrete inputs legibly.\<close>

definition js :: "string \<Rightarrow> jsstring" where
  "js s = map of_char s"

text \<open>The class \<open>\s\<close> of a regular expression, which is also what \<open>trim\<close> removes.\<close>

definition is_space :: "jschar \<Rightarrow> bool" where
  "is_space c \<longleftrightarrow>
     c = 0x09 \<or> c = 0x0A \<or> c = 0x0B \<or> c = 0x0C \<or> c = 0x0D \<or> c = 0x20 \<or> c = 0xA0 \<or>
     c = 0x1680 \<or> (0x2000 \<le> c \<and> c \<le> 0x200A) \<or> c = 0x2028 \<or> c = 0x2029 \<or>
     c = 0x202F \<or> c = 0x205F \<or> c = 0x3000 \<or> c = 0xFEFF"

text \<open>The class \<open>\w\<close> (no unicode or ignore-case flag): \<open>[A-Za-z0-9_]\<close>.\<close>

definition is_word_char :: "jschar \<Rightarrow> bool" where
  "is_word_char c \<longleftrightarrow>
     (0x30 \<le> c \<and> c \<le> 0x39) \<or> (0x41 \<le> c \<and> c \<le> 0x5A) \<or> c = 0x5F \<or>
     (0x61 \<le> c \<and> c \<le> 0x7A)"

abbreviation SP :: jschar where "SP \<equiv> 0x20"

text \<open>\<open>s.trim()\<close>: white space removed at both ends.\<close>

fun rtrim :: "jsstring \<Rightarrow> jsstring" where
  "rtrim [] = []"
| "rtrim (c # cs) = (let r = rtrim cs in if is_space c \<and> r = [] then [] else c # r)"

definition trim :: "jsstring \<Rightarrow> jsstring" where
  "trim s = dropWhile is_space (rtrim s)"

text \<open>\<open>s.replace(/[^\w\s\-_]/g, ' ')\<close>: every code unit outside the class becomes a space.\<close>

definition keeps :: "jschar \<Rightarrow> bool" where
  "keeps c \<longleftrightarrow> is_word_char c \<or> is_space c \<or> c = 0x2D \<or> c = 0x5F"

definition replace_special :: "jsstring \<Rightarrow> jsstring" where
  "replace_special s = map (\<lambda>c. if keeps c then c else SP) s"

text \<open>\<open>s.replace(/\s+/g, ' ')\<close>: every maximal run of white space becomes one space.\<close>

function collapse_ws :: "jsstring \<Rightarrow> jsstring" where
  "collapse_ws [] = []"
| "collapse_ws (c # cs) =
     (if is_space c then SP # collapse_ws (dropWhile is_space cs) else c # collapse_ws cs)"
  by pat_completeness auto
termination
  by (relation "measure length") (auto simp: length_dropWhile_le less_Suc_eq_le)

text \<open>\<open>s.split(' ')\<close>: the fields between single occurrences of the separator.\<close>

function split_on :: "jschar \<Rightarrow> jsstring \<Rightarrow> jsstring list" where
  "split_on d s =
     (let field = takeWhile (\<lambda>c. c \<noteq> d) s; rest = dropWhile (\<lambda>c. c \<noteq> d) s
      in if rest = [] then [field] else field # split_on d (tl rest))"
  by pat_completeness auto
termination
proof (relation "measure (\<lambda>(d, s). length s)")
  show "wf (measure (\<lambda>(d, s). length s))" by simp
next
  fix d :: jschar and s field rest :: jsstring
  assume "rest = dropWhile (\<lambda>c. c \<noteq> d) s" and "rest \<noteq> []"
  then have "length (tl rest) < length rest" and "length rest \<le> length s"
    by (simp_all add: length_dropWhile_le)
  then show "((d, tl rest), (d, s)) \<in> measure (\<lambda>(d, s). length s)" by simp
qed

text \<open>\<open>s.split(/\s+/)\<close>: the fields between maximal runs of white space.\<close>

function split_ws :: "jsstring \<Rightarrow> jsstring list" where
  "split_ws s =
     (let field = takeWhile (\<lambda>c. \<not> is_space c) s; rest = dropWhile (\<lambda>c. \<not> is_space c) s
      in if rest = [] then [field] else field # split_ws (dropWhile is_space (tl rest)))"
  by pat_completeness auto
termination
proof (relation "measure length")
  show "wf (measure length)" by simp
next
  fix s field rest :: jsstring
  assume "rest = dropWhile (\<lambda>c. \<not> is_space c) s" and "rest \<noteq> []"
  then have "length (tl rest) < length rest" and "length rest \<le> length s"
    by (simp_all add: length_dropWhile_le)
  moreover have "length (dropWhile is_space (tl rest)) \<le> length (tl rest)"
    by (rule length_dropWhile_le)
  ultimately show "(dropWhile is_space (tl rest), s) \<in> measure length" by simp
qed

declare split_on.simps [simp del] split_ws.simps [simp del]

text \<open>\<open>xs.join(' ')\<close>.\<close>

fun join_sp :: "jsstring list \<Rightarrow> jsstring" where
  "join_sp [] = []"
| "join_sp [w] = w"
| "join_sp (w # v # ws) = w @ SP # join_sp (v # ws)"

text \<open>
  \<open>xs.slice(0, n)\<close> for an integral \<open>n\<close>: a negative \<open>n\<close> counts from the end.
\<close>

definition slice0 :: "'a list \<Rightarrow> int \<Rightarrow> 'a list" where
  "slice0 xs n = (if n < 0 then take (nat (int (length xs) + n)) xs else take (nat n) xs)"

text \<open>\<open>s.indexOf(w)\<close>: the first position where \<open>w\<close> occurs, \<open>None\<close> for \<open>-1\<close>.\<close>

fun indexOf_from :: "jsstring \<Rightarrow> jsstring \<Rightarrow> nat \<Rightarrow> nat option" where
  "indexOf_from [] w i = (if w = [] then Some i else None)"
| "indexOf_from (c # cs) w i =
     (if prefix w (c # cs) then Some i else indexOf_from cs w (Suc i))"

definition indexOf :: "jsstring \<Rightarrow> jsstring \<Rightarrow> nat option" where
  "indexOf s w = indexOf_from s w 0"

text \<open>
  \<open>Buffer.byteLength(s, 'utf8')\<close>: one to three bytes per code unit of the basic plane,
  four for a surrogate pair, three (the replacement character) for a lone surrogate.
\<close>

fun byteLength :: "jsstring \<Rightarrow> nat" where
  "byteLength [] = 0"
| "byteLength (c # cs) =
     (if c < 0x80 then 1 + byteLength cs
      else if c < 0x800 then 2 + byteLength cs
      else if 0xD800 \<le> c \<and> c \<le> 0xDBFF then
        (case cs of
           [] \<Rightarrow> 3
         | d # ds \<Rightarrow> if 0xDC00 \<le> d \<and> d \<le> 0xDFFF then 4 + byteLength ds
                     else 3 + byteLength cs)
      else 3 + byteLength cs)"

text \<open>
  \<open>path.basename(p)\<close> on a POSIX host: trailing slashes are skipped and the last segment
  is returned.
\<close>

definition basename :: "jsstring \<Rightarrow> jsstring" where
  "basename p = rev (takeWhile (\<lambda>c. c \<noteq> 0x2F) (dropWhile (\<lambda>c. c = 0x2F) (rev p)))"

section \<open>Data model (\<open>types/index.ts\<close>)\<close>

datatype doc_type = Txt | Md | Pdf | Docx | Html | Json

text \<open>Values of the open extension map of the metadata (type \<open>any\<close>).\<close>

datatype jsvalue =
    JUndefined | JNull | JBool bool | JNum int | JStr jsstring
  | JArr "jsvalue list" | JObj "(jsstring \<times> jsvalue) list"

text \<open>
  \<open>Document['metadata']\<close>: the named keys, optional ones as \<open>option\<close>, and the index
  signature as an association list in insertion order.
\<close>

record doc_metadata =
  createdAt :: jsstring
  updatedAt :: jsstring
  size_bytes :: int
  tags :: "jsstring list option"
  summary :: "jsstring option"
  wordCount :: "int option"
  charCount :: "int option"
  extra :: "(jsstring \<times> jsvalue) list"

text \<open>\<open>Partial<Document['metadata']>\<close>: \<open>None\<close> is an absent key.\<close>

record partial_metadata =
  pm_createdAt :: "jsstring option"
  pm_updatedAt :: "jsstring option"
  pm_size :: "int option"
  pm_tags :: "jsstring list option"
  pm_summary :: "jsstring option"
  pm_wordCount :: "int option"
  pm_charCount :: "int option"
  pm_extra :: "(jsstring \<times> jsvalue) list"

record Document =
  d_id :: jsstring
  d_title :: jsstring
  d_content :: jsstring
  d_path :: jsstring
  d_type :: doc_type
  d_metadata :: doc_metadata

text \<open>\<open>Partial<Document>\<close>, the payload of an update.\<close>

record partial_document =
  p_id :: "jsstring option"
  p_title :: "jsstring option"
  p_content :: "jsstring option"
  p_path :: "jsstring option"
  p_type :: "doc_type option"
  p_metadata :: "partial_metadata option"

record IndexEntry =
  e_id :: jsstring
  e_title :: jsstring
  e_content :: jsstring
  e_tags :: "jsstring list"

text \<open>
  \<open>SearchResult\<close> as \<open>search\<close> builds it; its \<open>metadata\<close> is the constant empty object
  there and is left out.
\<close>

record SearchResult =
  r_id :: jsstring
  r_title :: jsstring
  r_score :: real
  r_snippet :: jsstring

record ProcessedFile =
  pf_content :: jsstring
  pf_type :: doc_type
  pf_metadata :: "partial_metadata option"

text \<open>The failures an \<open>OperationResult\<close> can carry; \<open>Inl\<close> is \<open>success: false\<close>.\<close>

datatype error =
    DocumentNotFound jsstring
  | DocumentFileMissing jsstring
  | NoDocumentForPath jsstring
  | NotFoundInIndex jsstring
  | IoError
  | LunrError

text \<open>
  Object spread \<open>{...m, ...p}\<close> on metadata: a key present on the right wins, extension
  keys keep their position or are appended.
\<close>

definition pick :: "'a \<Rightarrow> 'a option \<Rightarrow> 'a" where
  "pick old new = (case new of None \<Rightarrow> old | Some v \<Rightarrow> v)"

definition pick_opt :: "'a option \<Rightarrow> 'a option \<Rightarrow> 'a option" where
  "pick_opt old new = (case new of None \<Rightarrow> old | Some v \<Rightarrow> Some v)"

definition spread_metadata :: "doc_metadata \<Rightarrow> partial_metadata option \<Rightarrow> doc_metadata" where
  "spread_metadata m po =
     (case po of
        None \<Rightarrow> m
      | Some p \<Rightarrow>
          \<lparr>createdAt = pick (createdAt m) (pm_createdAt p),
           updatedAt = pick (updatedAt m) (pm_updatedAt p),
           size_bytes = pick (size_bytes m) (pm_size p),
           tags = pick_opt (tags m) (pm_tags p),
           summary = pick_opt (summary m) (pm_summary p),
           wordCount = pick_opt (wordCount m) (pm_wordCount p),
           charCount = pick_opt (charCount m) (pm_charCount p),
           extra = fold (\<lambda>(k, v). AList.update k v) (pm_extra p) (extra m)\<rparr>)"

section \<open>External primitives\<close>

text \<open>
  The lunr library, \<open>String.prototype.toLowerCase\<close> and \<open>path.extname\<close> are not code of
  this repository; the model takes them as parameters. The builder returns \<open>None\<close> when it
  throws, a query returns \<open>Inl\<close> when it throws.
\<close>

record lunr_doc =
  ld_id :: jsstring
  ld_title :: jsstring
  ld_content :: jsstring
  ld_tags :: jsstring

record lunr_hit =
  h_ref :: jsstring
  h_score :: real

record 'idx externals =
  lunr_build :: "lunr_doc list \<Rightarrow> 'idx option"
  lunr_search :: "'idx \<Rightarrow> jsstring \<Rightarrow> error + lunr_hit list"
  toLowerCase :: "jsstring \<Rightarrow> jsstring"
  extname :: "jsstring \<Rightarrow> jsstring"

section \<open>Search Index (\<open>lib/SearchIndex.ts\<close>)\<close>

text \<open>
  The object's fields \<open>index\<close> and \<open>documents\<close> (a \<open>Map\<close>, kept in insertion order),
  and the persisted artifact \<open>index/search.json\<close>; \<open>None\<close> is a missing or unreadable file.
\<close>

record 'idx SearchIndex =
  index :: "'idx option"
  documents :: "(jsstring \<times> IndexEntry) list"
  index_file :: "('idx \<times> IndexEntry list) option"

definition truncateContent :: "jsstring \<Rightarrow> nat \<Rightarrow> jsstring" where
  "truncateContent content maxLength =
     (if length content \<le> maxLength then content
      else take maxLength content @ [0x2E, 0x2E, 0x2E])"

text \<open>
  \<open>SearchIndex.cleanQuery\<close>. The template literal is the word, an asterisk, a space and the
  word again.
\<close>

definition cleanQuery :: "jsstring \<Rightarrow> jsstring" where
  "cleanQuery query =
     (let cleaned = trim (collapse_ws (replace_special (trim query)))
      in if cleaned = [] then []
         else let words = filter (\<lambda>word. length word > 0) (split_on SP cleaned)
              in if length words = 1 \<and> length (hd words) > 2
                 then hd words @ [0x2A, SP] @ hd words
                 else cleaned)"

text \<open>
  \<open>SearchIndex.extractSnippet\<close>, always called with the default \<open>contextLength = 150\<close>.
  The loop keeps the earliest occurrence of any query word in the lower-cased content.
\<close>

definition contextLength :: nat where
  "contextLength = 150"

definition best_match :: "jsstring \<Rightarrow> jsstring list \<Rightarrow> (nat \<times> jsstring) option" where
  "best_match lowerContent queryWords =
     fold (\<lambda>word best.
             case indexOf lowerContent word of
               None \<Rightarrow> best
             | Some i \<Rightarrow>
                 (case best of
                    None \<Rightarrow> Some (i, word)
                  | Some (bestIndex, bestWord) \<Rightarrow>
                      if i < bestIndex then Some (i, word) else best))
          queryWords None"

definition extractSnippet :: "'idx externals \<Rightarrow> jsstring \<Rightarrow> jsstring \<Rightarrow> jsstring" where
  "extractSnippet X content query =
     (let lowerContent = toLowerCase X content;
          queryWords = filter (\<lambda>word. length word > 1) (split_ws (toLowerCase X query))
      in case best_match lowerContent queryWords of
           None \<Rightarrow> truncateContent content contextLength @ [0x2E, 0x2E, 0x2E]
         | Some (bestIndex, bestWord) \<Rightarrow>
             let start = bestIndex - contextLength div 2;
                 end = min (length content) (bestIndex + length bestWord + contextLength div 2);
                 snippet = take (end - start) (drop start content);
                 snippet1 = (if start > 0 then [0x2E, 0x2E, 0x2E] @ snippet else snippet)
             in if end < length content then snippet1 @ [0x2E, 0x2E, 0x2E] else snippet1)"

text \<open>
  \<open>saveIndex\<close> returns without writing when there is no index object. \<open>write_ok\<close> says
  whether \<open>fs.writeFile\<close> succeeds; the first component is the exception thrown, if any.
\<close>

definition saveIndex :: "bool \<Rightarrow> 'idx SearchIndex \<Rightarrow> error option \<times> 'idx SearchIndex" where
  "saveIndex write_ok st =
     (case index st of
        None \<Rightarrow> (None, st)
      | Some idx \<Rightarrow>
          if write_ok then (None, st\<lparr>index_file := Some (idx, map snd (documents st))\<rparr>)
          else (Some IoError, st))"

definition to_lunr_doc :: "IndexEntry \<Rightarrow> lunr_doc" where
  "to_lunr_doc doc =
     \<lparr>ld_id = e_id doc, ld_title = e_title doc, ld_content = e_content doc,
      ld_tags = join_sp (e_tags doc)\<rparr>"

definition rebuildIndex ::
  "'idx externals \<Rightarrow> bool \<Rightarrow> 'idx SearchIndex \<Rightarrow> error option \<times> 'idx SearchIndex" where
  "rebuildIndex X write_ok st =
     (let docs = map snd (documents st)
      in if length docs = 0 then saveIndex write_ok (st\<lparr>index := None\<rparr>)
         else case lunr_build X (map to_lunr_doc docs) of
                None \<Rightarrow> (Some LunrError, st)
              | Some idx \<Rightarrow> saveIndex write_ok (st\<lparr>index := Some idx\<rparr>))"

definition to_entry :: "Document \<Rightarrow> IndexEntry" where
  "to_entry doc =
     \<lparr>e_id = d_id doc, e_title = d_title doc,
      e_content = truncateContent (d_content doc) 10000,
      e_tags = (case tags (d_metadata doc) of None \<Rightarrow> [] | Some ts \<Rightarrow> ts)\<rparr>"

definition finish :: "error option \<times> 's \<Rightarrow> (error + unit) \<times> 's" where
  "finish r = (case r of (None, st) \<Rightarrow> (Inr (), st) | (Some e, st) \<Rightarrow> (Inl e, st))"

definition SearchIndex_addDocument ::
  "'idx externals \<Rightarrow> bool \<Rightarrow> Document \<Rightarrow> 'idx SearchIndex \<Rightarrow> (error + unit) \<times> 'idx SearchIndex" where
  "SearchIndex_addDocument X write_ok doc st =
     finish (rebuildIndex X write_ok
       (st\<lparr>documents := AList.update (d_id doc) (to_entry doc) (documents st)\<rparr>))"

definition SearchIndex_updateDocument ::
  "'idx externals \<Rightarrow> bool \<Rightarrow> Document \<Rightarrow> 'idx SearchIndex \<Rightarrow> (error + unit) \<times> 'idx SearchIndex" where
  "SearchIndex_updateDocument X write_ok doc st = SearchIndex_addDocument X write_ok doc st"

definition removeDocument ::
  "'idx externals \<Rightarrow> bool \<Rightarrow> jsstring \<Rightarrow> 'idx SearchIndex \<Rightarrow> (error + unit) \<times> 'idx SearchIndex" where
  "removeDocument X write_ok i st =
     (if map_of (documents st) i = None then (Inl (NotFoundInIndex i), st)
      else finish (rebuildIndex X write_ok
             (st\<lparr>documents := AList.delete i (documents st)\<rparr>)))"

definition rebuildFromDocuments ::
  "'idx externals \<Rightarrow> bool \<Rightarrow> Document list \<Rightarrow> 'idx SearchIndex \<Rightarrow> (error + unit) \<times> 'idx SearchIndex" where
  "rebuildFromDocuments X write_ok docs st =
     finish (rebuildIndex X write_ok
       (st\<lparr>documents := fold (\<lambda>doc m. AList.update (d_id doc) (to_entry doc) m) docs []\<rparr>))"

text \<open>
  \<open>loadIndex\<close>: the serialised index and the entry list are read back as they are in the
  file; a missing or corrupt file starts fresh.
\<close>

definition loadIndex :: "'idx SearchIndex \<Rightarrow> 'idx SearchIndex" where
  "loadIndex st =
     (case index_file st of
        None \<Rightarrow> st\<lparr>documents := [], index := None\<rparr>
      | Some (idx, docs) \<Rightarrow>
          st\<lparr>index := Some idx,
             documents := fold (\<lambda>d m. AList.update (e_id d) d m) docs []\<rparr>)"

definition clearIndex :: "bool \<Rightarrow> 'idx SearchIndex \<Rightarrow> 'idx SearchIndex" where
  "clearIndex unlink_ok st =
     (let st1 = st\<lparr>documents := [], index := None\<rparr>
      in if unlink_ok then st1\<lparr>index_file := None\<rparr> else st1)"

definition to_result :: "'idx externals \<Rightarrow> 'idx SearchIndex \<Rightarrow> jsstring \<Rightarrow> lunr_hit \<Rightarrow> SearchResult option" where
  "to_result X st query result =
     (case map_of (documents st) (h_ref result) of
        None \<Rightarrow> None
      | Some doc \<Rightarrow>
          Some \<lparr>r_id = e_id doc, r_title = e_title doc, r_score = h_score result,
                r_snippet = extractSnippet X (e_content doc) query\<rparr>)"

definition search ::
  "'idx externals \<Rightarrow> 'idx SearchIndex \<Rightarrow> jsstring \<Rightarrow> int \<Rightarrow> error + SearchResult list" where
  "search X st query limit =
     (case index st of
        None \<Rightarrow> Inr []
      | Some idx \<Rightarrow>
          if trim query = [] then Inr []
          else let cq = cleanQuery query
               in if cq = [] then Inr []
                  else case lunr_search X idx cq of
                         Inl e \<Rightarrow> Inl e
                       | Inr results \<Rightarrow>
                           Inr (List.map_filter (to_result X st query) (slice0 results limit)))"

section \<open>Document Store (\<open>lib/DocumentStore.ts\<close>)\<close>

text \<open>
  The in-memory \<open>Map\<close> of the store (insertion order), the durable slots
  \<open>documents/<id>.json\<close> keyed by id, and the manifest \<open>metadata/documents.json\<close>.
\<close>

record DocumentStore =
  store_metadata :: "(jsstring \<times> Document) list"
  slot_files :: "(jsstring \<times> Document) list"
  manifest_file :: "Document list option"

text \<open>
  What \<open>addDocument\<close> takes from its environment: the identifier \<open>nanoid()\<close> returns, the two
  readings of the clock (\<open>new Date().toISOString()\<close> is evaluated once for \<open>createdAt\<close> and
  once for \<open>updatedAt\<close>), and whether each of the two writes succeeds.
\<close>

record add_effects =
  nanoid :: jsstring
  now_created :: jsstring
  now_updated :: jsstring
  slot_write_ok :: bool
  manifest_write_ok :: bool

definition saveMetadata :: "bool \<Rightarrow> DocumentStore \<Rightarrow> error option \<times> DocumentStore" where
  "saveMetadata write_ok st =
     (if write_ok then (None, st\<lparr>manifest_file := Some (map snd (store_metadata st))\<rparr>)
      else (Some IoError, st))"

text \<open>The title expression \<open>metadata?.tags?.[0] || filename\<close>.\<close>

definition initial_title :: "partial_metadata option \<Rightarrow> jsstring \<Rightarrow> jsstring" where
  "initial_title md filename =
     (case md of
        None \<Rightarrow> filename
      | Some p \<Rightarrow>
          (case pm_tags p of
             None \<Rightarrow> filename
           | Some [] \<Rightarrow> filename
           | Some (t # ts) \<Rightarrow> if t = [] then filename else t))"

definition new_document ::
  "add_effects \<Rightarrow> jsstring \<Rightarrow> jsstring \<Rightarrow> doc_type \<Rightarrow> partial_metadata option \<Rightarrow> Document" where
  "new_document fx filePath content type md =
     (let filename = basename filePath
      in \<lparr>d_id = nanoid fx,
          d_title = initial_title md filename,
          d_content = content,
          d_path = filePath,
          d_type = type,
          d_metadata =
            spread_metadata
              \<lparr>createdAt = now_created fx,
               updatedAt = now_updated fx,
               size_bytes = int (byteLength content),
               tags = None,
               summary = None,
               wordCount =
                 Some (int (length (filter (\<lambda>word. length word > 0) (split_ws content)))),
               charCount = Some (int (length content)),
               extra = []\<rparr>
              md\<rparr>)"

definition DocumentStore_addDocument ::
  "add_effects \<Rightarrow> jsstring \<Rightarrow> jsstring \<Rightarrow> doc_type \<Rightarrow> partial_metadata option \<Rightarrow>
   DocumentStore \<Rightarrow> (error + Document) \<times> DocumentStore" where
  "DocumentStore_addDocument fx filePath content type md st =
     (let doc = new_document fx filePath content type md
      in if \<not> slot_write_ok fx then (Inl IoError, st)
         else let st1 = st\<lparr>slot_files := AList.update (d_id doc) doc (slot_files st),
                            store_metadata := AList.update (d_id doc) doc (store_metadata st)\<rparr>
              in case saveMetadata (manifest_write_ok fx) st1 of
                   (Some e, st2) \<Rightarrow> (Inl e, st2)
                 | (None, st2) \<Rightarrow> (Inr doc, st2))"

text \<open>
  Eviction of an entry whose durable slot is gone, shared by \<open>getDocument\<close> and
  \<open>getDocumentByPath\<close>.
\<close>

definition evict :: "bool \<Rightarrow> jsstring \<Rightarrow> DocumentStore \<Rightarrow> (error + Document) \<times> DocumentStore" where
  "evict write_ok i st =
     (case saveMetadata write_ok (st\<lparr>store_metadata := AList.delete i (store_metadata st)\<rparr>) of
        (Some e, st1) \<Rightarrow> (Inl e, st1)
      | (None, st1) \<Rightarrow> (Inl (DocumentFileMissing i), st1))"

definition getDocument ::
  "bool \<Rightarrow> jsstring \<Rightarrow> DocumentStore \<Rightarrow> (error + Document) \<times> DocumentStore" where
  "getDocument write_ok i st =
     (case map_of (store_metadata st) i of
        None \<Rightarrow> (Inl (DocumentNotFound i), st)
      | Some doc \<Rightarrow>
          if map_of (slot_files st) i = None then evict write_ok i st
          else (Inr doc, st))"

definition getDocumentByPath ::
  "bool \<Rightarrow> jsstring \<Rightarrow> DocumentStore \<Rightarrow> (error + Document) \<times> DocumentStore" where
  "getDocumentByPath write_ok filePath st =
     (case find (\<lambda>doc. d_path doc = filePath) (map snd (store_metadata st)) of
        None \<Rightarrow> (Inl (NoDocumentForPath filePath), st)
      | Some doc \<Rightarrow>
          if map_of (slot_files st) (d_id doc) = None then evict write_ok (d_id doc) st
          else (Inr doc, st))"

text \<open>
  \<open>updateDocument\<close>: the spread of the existing record, then of the payload, then the
  two keys written last (\<open>id\<close> and the merged \<open>metadata\<close>).
\<close>

definition updated_document :: "jsstring \<Rightarrow> Document \<Rightarrow> partial_document \<Rightarrow> Document" where
  "updated_document now existingDoc updates =
     \<lparr>d_id = d_id existingDoc,
      d_title = pick (d_title existingDoc) (p_title updates),
      d_content = pick (d_content existingDoc) (p_content updates),
      d_path = pick (d_path existingDoc) (p_path updates),
      d_type = pick (d_type existingDoc) (p_type updates),
      d_metadata =
        (spread_metadata (d_metadata existingDoc) (p_metadata updates))\<lparr>updatedAt := now\<rparr>\<rparr>"

definition DocumentStore_updateDocument ::
  "jsstring \<Rightarrow> bool \<Rightarrow> bool \<Rightarrow> jsstring \<Rightarrow> partial_document \<Rightarrow> DocumentStore \<Rightarrow>
   (error + Document) \<times> DocumentStore" where
  "DocumentStore_updateDocument now slot_ok manifest_ok i updates st =
     (case map_of (store_metadata st) i of
        None \<Rightarrow> (Inl (DocumentNotFound i), st)
      | Some existingDoc \<Rightarrow>
          let updatedDoc = updated_document now existingDoc updates
          in if \<not> slot_ok then (Inl IoError, st)
             else let st1 = st\<lparr>slot_files := AList.update i updatedDoc (slot_files st),
                                store_metadata := AList.update i updatedDoc (store_metadata st)\<rparr>
                  in case saveMetadata manifest_ok st1 of
                       (Some e, st2) \<Rightarrow> (Inl e, st2)
                     | (None, st2) \<Rightarrow> (Inr updatedDoc, st2))"

section \<open>Filesystem Reconciler (\<open>lib/FileWatcher.ts\<close>)\<close>

text \<open>\<open>DocumentProcessor.isSupported\<close> and the set it consults.\<close>

definition supportedExtensions :: "jsstring list" where
  "supportedExtensions =
     [js ''.txt'', js ''.md'', js ''.pdf'', js ''.docx'', js ''.html'', js ''.htm'', js ''.json'']"

definition isSupported :: "'idx externals \<Rightarrow> jsstring \<Rightarrow> bool" where
  "isSupported X filePath \<longleftrightarrow> toLowerCase X (extname X filePath) \<in> set supportedExtensions"

text \<open>
  The two collaborators the watcher drives, and what one run of \<open>handleFileAdded\<close> takes from
  its environment: the outcome of \<open>processFile\<close> (it reads the file system and the format
  libraries), the effects of \<open>addDocument\<close>, and whether the manifest write of an eviction and
  the index write succeed.
\<close>

record 'idx world =
  w_store :: DocumentStore
  w_index :: "'idx SearchIndex"

record added_effects =
  evict_write_ok :: bool
  processed :: "error + ProcessedFile"
  add_fx :: add_effects
  index_write_ok :: bool

definition handleFileAdded ::
  "'idx externals \<Rightarrow> added_effects \<Rightarrow> jsstring \<Rightarrow> 'idx world \<Rightarrow> 'idx world" where
  "handleFileAdded X fx filePath w =
     (if \<not> isSupported X filePath then w
      else case getDocumentByPath (evict_write_ok fx) filePath (w_store w) of
             (Inr existingDoc, store1) \<Rightarrow> w\<lparr>w_store := store1\<rparr>
           | (Inl e, store1) \<Rightarrow>
               (case processed fx of
                  Inl e \<Rightarrow> w\<lparr>w_store := store1\<rparr>
                | Inr pf \<Rightarrow>
                    (case DocumentStore_addDocument (add_fx fx) filePath (pf_content pf)
                            (pf_type pf) (pf_metadata pf) store1 of
                       (Inl e, store2) \<Rightarrow> w\<lparr>w_store := store2\<rparr>
                     | (Inr doc, store2) \<Rightarrow>
                         w\<lparr>w_store := store2,
                           w_index :=
                             snd (SearchIndex_addDocument X (index_write_ok fx) doc (w_index w))\<rparr>)))"

section \<open>Notions of the specification\<close>

text \<open>
  The white-space-delimited non-empty tokens of a string: its maximal runs of code units
  that are not white space.
\<close>

function tokens :: "jsstring \<Rightarrow> jsstring list" where
  "tokens [] = []"
| "tokens (c # cs) =
     (if is_space c then tokens cs
      else (c # takeWhile (\<lambda>x. \<not> is_space x) cs) # tokens (dropWhile (\<lambda>x. \<not> is_space x) cs))"
  by pat_completeness auto
termination
  by (relation "measure length") (auto simp: length_dropWhile_le less_Suc_eq_le)

text \<open>
  Query normalisation as the specification words it: the terms are what is left between
  white space once every character outside the word, hyphen, underscore and space classes is
  replaced; a single term longer than two characters becomes the prefix-wildcard form and the
  verbatim term, anything else is the terms joined by single spaces.
\<close>

definition spec_cleanQuery :: "jsstring \<Rightarrow> jsstring" where
  "spec_cleanQuery query =
     (let terms = tokens (replace_special query)
      in if length terms = 1 \<and> length (hd terms) > 2
         then hd terms @ [0x2A, SP] @ hd terms
         else join_sp terms)"

text \<open>A blank query: empty or white space only.\<close>

definition blank :: "jsstring \<Rightarrow> bool" where
  "blank query \<longleftrightarrow> list_all is_space query"

text \<open>
  A \<open>Map\<close> has one entry per key, and both maps are only ever written under the record's own
  identifier.
\<close>

definition keyed_by :: "('v \<Rightarrow> jsstring) \<Rightarrow> (jsstring \<times> 'v) list \<Rightarrow> bool" where
  "keyed_by ident m \<longleftrightarrow> distinct (map fst m) \<and> list_all (\<lambda>(k, v). ident v = k) m"

text \<open>The documents the store holds for a path, and whether the lookup by path finds a live one.\<close>

definition documents_at :: "jsstring \<Rightarrow> DocumentStore \<Rightarrow> Document list" where
  "documents_at filePath st = filter (\<lambda>doc. d_path doc = filePath) (map snd (store_metadata st))"

definition live_at :: "jsstring \<Rightarrow> DocumentStore \<Rightarrow> bool" where
  "live_at filePath st \<longleftrightarrow>
     (case find (\<lambda>doc. d_path doc = filePath) (map snd (store_metadata st)) of
        None \<Rightarrow> False
      | Some doc \<Rightarrow> map_of (slot_files st) (d_id doc) \<noteq> None)"

text \<open>A key of the metadata overrides is absent when there are no overrides or they lack it.\<close>

definition absent :: "(partial_metadata \<Rightarrow> 'a option) \<Rightarrow> partial_metadata option \<Rightarrow> bool" where
  "absent key md \<longleftrightarrow> (case md of None \<Rightarrow> True | Some p \<Rightarrow> key p = None)"

section \<open>Concrete instances for evaluation\<close>

text \<open>
  A stand-in for the external primitives: the index is the list of documents it was built
  from, every document is a hit of every query, lower-casing covers ASCII, and the extension
  is the text from the last dot on.
\<close>

definition ascii_lower :: "jschar \<Rightarrow> jschar" where
  "ascii_lower c = (if 0x41 \<le> c \<and> c \<le> 0x5A then c + 0x20 else c)"

definition last_dot_suffix :: "jsstring \<Rightarrow> jsstring" where
  "last_dot_suffix p =
     (if 0x2E \<in> set p then 0x2E # rev (takeWhile (\<lambda>c. c \<noteq> 0x2E) (rev p)) else [])"

definition demo_externals :: "(lunr_doc list) externals" where
  "demo_externals =
     \<lparr>lunr_build = Some,
      lunr_search = (\<lambda>idx q. Inr (map (\<lambda>d. \<lparr>h_ref = ld_id d, h_score = 1\<rparr>) idx)),
      toLowerCase = map ascii_lower,
      extname = last_dot_suffix\<rparr>"

definition empty_store :: DocumentStore where
  "empty_store = \<lparr>store_metadata = [], slot_files = [], manifest_file = None\<rparr>"

definition empty_index :: "(lunr_doc list) SearchIndex" where
  "empty_index = \<lparr>index = None, documents = [], index_file = None\<rparr>"

definition demo_fx :: "string \<Rightarrow> add_effects" where
  "demo_fx i =
     \<lparr>nanoid = js i, now_created = js ''2024-01-01T00:00:00.000Z'',
      now_updated = js ''2024-01-01T00:00:00.000Z'',
      slot_write_ok = True, manifest_write_ok = True\<rparr>"

definition empty_partial :: partial_metadata where
  "empty_partial =
     \<lparr>pm_createdAt = None, pm_updatedAt = None, pm_size = None, pm_tags = None,
      pm_summary = None, pm_wordCount = None, pm_charCount = None, pm_extra = []\<rparr>"

definition demo_doc :: Document where
  "demo_doc =
     new_document (demo_fx ''id1'') (js ''/docs/a.txt'') (js ''The quick brown fox jumps'')
       Txt None"

definition long_doc :: Document where
  "long_doc = demo_doc\<lparr>d_content := replicate 10001 0x61\<rparr>"

definition demo_store :: DocumentStore where
  "demo_store =
     snd (DocumentStore_addDocument (demo_fx ''id1'') (js ''/docs/a.txt'')
            (js ''The quick brown fox jumps'') Txt None empty_store)"

definition demo_index :: "(lunr_doc list) SearchIndex" where
  "demo_index = snd (SearchIndex_addDocument demo_externals True demo_doc empty_index)"

definition demo_update :: partial_document where
  "demo_update =
     \<lparr>p_id = Some (js ''other-id''), p_title = None, p_content = None,
      p_path = Some (js ''/elsewhere/b.txt''), p_type = None, p_metadata = None\<rparr>"

definition tagged_md :: "partial_metadata option" where
  "tagged_md = Some (empty_partial\<lparr>pm_tags := Some [js ''project'']\<rparr>)"

definition sized_md :: "partial_metadata option" where
  "sized_md = Some (empty_partial\<lparr>pm_size := Some 0\<rparr>)"

definition ticking_fx :: add_effects where
  "ticking_fx = (demo_fx ''id1'')\<lparr>now_updated := js ''2024-01-01T00:00:00.001Z''\<rparr>"

text \<open>
  A persisted index artifact whose index structure knows a document that its entry list does
  not, and the state \<open>loadIndex\<close> produces from it.
\<close>

definition ghost_doc :: lunr_doc where
  "ghost_doc =
     \<lparr>ld_id = js ''id0'', ld_title = js ''ghost.txt'', ld_content = js ''a fox'', ld_tags = []\<rparr>"

definition stale_index :: "(lunr_doc list) SearchIndex" where
  "stale_index =
     loadIndex
       (empty_index\<lparr>index_file :=
          Some ([ghost_doc, to_lunr_doc (to_entry demo_doc)], [to_entry demo_doc])\<rparr>)"

definition demo_pf :: ProcessedFile where
  "demo_pf =
     \<lparr>pf_content = js ''The quick brown fox jumps'', pf_type = Txt,
      pf_metadata = Some (empty_partial\<lparr>pm_extra := [(js ''encoding'', JStr (js ''utf-8''))]\<rparr>)\<rparr>"

definition demo_added_fx :: "string \<Rightarrow> added_effects" where
  "demo_added_fx i =
     \<lparr>evict_write_ok = True, processed = Inr demo_pf, add_fx = demo_fx i, index_write_ok = True\<rparr>"

definition demo_world :: "(lunr_doc list) world" where
  "demo_world = \<lparr>w_store = empty_store, w_index = empty_index\<rparr>"

text \<open>A store that received the same path twice through \<open>addDocument\<close>, as the tool layer allows.\<close>

definition dup_store :: DocumentStore where
  "dup_store =
     snd (DocumentStore_addDocument (demo_fx ''id2'') (js ''/docs/a.txt'')
            (js ''The quick brown fox jumps'') Txt None demo_store)"

definition dup_world :: "(lunr_doc list) world" where
  "dup_world = \<lparr>w_store = dup_store, w_index = empty_index\<rparr>"

section \<open>Query normalisation\<close>

lemma is_space_SP [simp]: "is_space SP"
  by (simp add: is_space_def)

lemma tokens_all_space: "list_all is_space x \<Longrightarrow> tokens x = []"
  by (induction x) auto

lemma tokens_spaces_append: "list_all is_space x \<Longrightarrow> tokens (x @ m) = tokens m"
  by (induction x) auto

lemma takeWhile_nonspace_spaces: "list_all is_space z \<Longrightarrow> takeWhile (\<lambda>x. \<not> is_space x) z = []"
  by (cases z) auto

lemma tokens_append_spaces: "list_all is_space z \<Longrightarrow> tokens (m @ z) = tokens m"
proof (induction m rule: tokens.induct)
  case 1
  then show ?case by (simp add: tokens_all_space)
next
  case (2 c cs)
  show ?case
  proof (cases "is_space c")
    case True
    with 2 show ?thesis by simp
  next
    case False
    show ?thesis
    proof (cases "\<exists>x\<in>set cs. is_space x")
      case True
      then have "takeWhile (\<lambda>x. \<not> is_space x) (cs @ z) = takeWhile (\<lambda>x. \<not> is_space x) cs"
        and "dropWhile (\<lambda>x. \<not> is_space x) (cs @ z) = dropWhile (\<lambda>x. \<not> is_space x) cs @ z"
        by auto
      with 2 False show ?thesis by simp
    next
      case allns: False
      then have tw: "takeWhile (\<lambda>x. \<not> is_space x) cs = cs"
        and dw: "dropWhile (\<lambda>x. \<not> is_space x) cs = []"
        by simp_all
      have twz: "takeWhile (\<lambda>x. \<not> is_space x) (cs @ z) = cs"
        using allns 2(3) by (simp add: takeWhile_nonspace_spaces)
      have dwz: "dropWhile (\<lambda>x. \<not> is_space x) (cs @ z) = z"
        using allns 2(3) by (cases z) simp_all
      have "tokens ((c # cs) @ z) = (c # cs) # tokens z"
        using False by (simp only: append_Cons tokens.simps twz dwz if_False)
      also have "\<dots> = [c # cs]"
        using 2(3) by (simp add: tokens_all_space)
      also have "\<dots> = tokens (c # cs)"
        using False by (simp only: tokens.simps tw dw if_False)
      finally show ?thesis .
    qed
  qed
qed

lemma rtrim_decomp: "\<exists>z. list_all is_space z \<and> s = rtrim s @ z"
proof (induction s)
  case Nil
  then show ?case by simp
next
  case (Cons c cs)
  then obtain z where z: "list_all is_space z" "cs = rtrim cs @ z" by blast
  show ?case
  proof (cases "is_space c \<and> rtrim cs = []")
    case True
    with z have "list_all is_space (c # z)" "c # cs = rtrim (c # cs) @ (c # z)" by simp_all
    then show ?thesis by blast
  next
    case False
    with z have "c # cs = rtrim (c # cs) @ z" by (auto simp: Let_def)
    with z(1) show ?thesis by blast
  qed
qed

lemma trim_decomp: "\<exists>x z. list_all is_space x \<and> list_all is_space z \<and> s = x @ trim s @ z"
proof -
  obtain z where z: "list_all is_space z" "s = rtrim s @ z" using rtrim_decomp by blast
  have "rtrim s = takeWhile is_space (rtrim s) @ trim s" by (simp add: trim_def)
  moreover have "list_all is_space (takeWhile is_space (rtrim s))"
    using set_takeWhileD[of _ is_space "rtrim s"] by (auto simp: list_all_iff)
  ultimately show ?thesis using z by (metis append.assoc)
qed

lemma replace_special_spaces: "list_all is_space x \<Longrightarrow> list_all is_space (replace_special x)"
  by (induction x) (auto simp: replace_special_def)

lemma tokens_replace_trim: "tokens (replace_special (trim q)) = tokens (replace_special q)"
proof -
  obtain x z where xz: "list_all is_space x" "list_all is_space z" "q = x @ trim q @ z"
    using trim_decomp by blast
  have "replace_special q = replace_special x @ replace_special (trim q) @ replace_special z"
    by (subst xz(3)) (simp add: replace_special_def)
  then show ?thesis
    using xz(1,2) by (simp add: tokens_spaces_append tokens_append_spaces replace_special_spaces)
qed

lemma tokens_props: "t \<in> set (tokens s) \<Longrightarrow> t \<noteq> [] \<and> (\<forall>c\<in>set t. \<not> is_space c)"
proof (induction s rule: tokens.induct)
  case 1
  then show ?case by simp
next
  case (2 c cs)
  show ?case
  proof (cases "is_space c")
    case True
    then have "tokens (c # cs) = tokens cs" by simp
    with 2(3) have "t \<in> set (tokens cs)" by simp
    then show ?thesis using "2.IH"(1)[OF True] by blast
  next
    case False
    then have "tokens (c # cs) = (c # takeWhile (\<lambda>x. \<not> is_space x) cs) # tokens (dropWhile (\<lambda>x. \<not> is_space x) cs)"
      by simp
    with 2(3) consider "t = c # takeWhile (\<lambda>x. \<not> is_space x) cs"
      | "t \<in> set (tokens (dropWhile (\<lambda>x. \<not> is_space x) cs))"
      by auto
    then show ?thesis
    proof cases
      case 1
      have "\<forall>x\<in>set (takeWhile (\<lambda>x. \<not> is_space x) cs). \<not> is_space x"
        using set_takeWhileD[of _ "\<lambda>x. \<not> is_space x" cs] by blast
      with 1 False show ?thesis by simp
    next
      case 2
      with "2.IH"(2)[OF False] show ?thesis by blast
    qed
  qed
qed

lemma join_sp_Cons: "join_sp (w # ts) = w @ (if ts = [] then [] else SP # join_sp ts)"
  by (cases ts) auto

lemma join_sp_tokens_hd:
  "tokens s \<noteq> [] \<Longrightarrow> join_sp (tokens s) \<noteq> [] \<and> \<not> is_space (hd (join_sp (tokens s)))"
proof -
  assume ne: "tokens s \<noteq> []"
  then obtain t ts where tt: "tokens s = t # ts" by (cases "tokens s") auto
  then have "t \<in> set (tokens s)" by simp
  then have "t \<noteq> []" "\<forall>c\<in>set t. \<not> is_space c" using tokens_props by blast+
  then show ?thesis using tt by (cases t) (auto simp: join_sp_Cons)
qed

lemma rtrim_nonempty: "\<not> is_space c \<Longrightarrow> rtrim (c # cs) = c # rtrim cs"
  by (simp add: Let_def)

lemma rtrim_collapse:
  "rtrim (collapse_ws s) =
     (if tokens s = [] then []
      else (if s \<noteq> [] \<and> is_space (hd s) then [SP] else []) @ join_sp (tokens s))"
proof (induction s rule: collapse_ws.induct)
  case 1
  then show ?case by simp
next
  case (2 c cs)
  show ?case
  proof (cases "is_space c")
    case True
    let ?d = "dropWhile is_space cs"
    have nd: "\<not> (?d \<noteq> [] \<and> is_space (hd ?d))" using hd_dropWhile[of is_space cs] by blast
    have "list_all is_space (takeWhile is_space cs)"
      using set_takeWhileD[of _ is_space cs] by (auto simp: list_all_iff)
    then have td: "tokens ?d = tokens cs"
      using tokens_spaces_append[of "takeWhile is_space cs" ?d] by simp
    have ih: "rtrim (collapse_ws ?d) = (if tokens cs = [] then [] else join_sp (tokens cs))"
      using 2(1)[OF True] nd td by auto
    show ?thesis using True ih join_sp_tokens_hd[of cs] by (auto simp: Let_def)
  next
    case False
    have ih: "rtrim (collapse_ws cs) =
       (if tokens cs = [] then []
        else (if cs \<noteq> [] \<and> is_space (hd cs) then [SP] else []) @ join_sp (tokens cs))"
      using 2(2)[OF False] .
    show ?thesis
    proof (cases cs)
      case Nil
      with False show ?thesis by (simp add: Let_def)
    next
      case (Cons x xs)
      show ?thesis
      proof (cases "is_space x")
        case True
        with False Cons ih show ?thesis by (auto simp: Let_def join_sp_Cons)
      next
        case nx: False
        with False Cons ih show ?thesis by (auto simp: Let_def join_sp_Cons)
      qed
    qed
  qed
qed

lemma trim_collapse: "trim (collapse_ws s) = join_sp (tokens s)"
proof (cases "tokens s = []")
  case True
  then show ?thesis by (simp add: trim_def rtrim_collapse)
next
  case False
  then have "join_sp (tokens s) \<noteq> []" "\<not> is_space (hd (join_sp (tokens s)))"
    using join_sp_tokens_hd by blast+
  then have "dropWhile is_space (join_sp (tokens s)) = join_sp (tokens s)"
    by (cases "join_sp (tokens s)") auto
  with False show ?thesis by (auto simp: trim_def rtrim_collapse)
qed

lemma split_on_no_sep: "d \<notin> set w \<Longrightarrow> split_on d w = [w]"
  by (subst split_on.simps) (simp add: Let_def)

lemma split_on_sep: "d \<notin> set w \<Longrightarrow> split_on d (w @ d # r) = w # split_on d r"
proof -
  assume a: "d \<notin> set w"
  then have "takeWhile (\<lambda>c. c \<noteq> d) (w @ d # r) = w" "dropWhile (\<lambda>c. c \<noteq> d) (w @ d # r) = d # r"
    by (simp_all add: takeWhile_tail dropWhile_append3) blast+
  then show ?thesis by (subst split_on.simps) (simp add: Let_def)
qed

lemma split_on_join:
  "ts \<noteq> [] \<Longrightarrow> \<forall>t\<in>set ts. SP \<notin> set t \<Longrightarrow> split_on SP (join_sp ts) = ts"
  by (induction ts rule: join_sp.induct) (auto simp: split_on_no_sep split_on_sep)

text \<open>
  Claim C8. For every query, \<open>cleanQuery\<close> returns what the specification describes:
  characters outside the word, hyphen, underscore and space classes are replaced and white
  space is collapsed; a single resulting word longer than two characters is expanded into
  its prefix-wildcard form followed by the verbatim word; otherwise the cleaned terms joined
  by single spaces are returned unchanged.
\<close>

theorem cleanQuery_normalisation: "cleanQuery q = spec_cleanQuery q"
proof -
  let ?ts = "tokens (replace_special q)"
  have cleaned: "trim (collapse_ws (replace_special (trim q))) = join_sp ?ts"
    by (simp add: trim_collapse tokens_replace_trim)
  show ?thesis
  proof (cases "?ts = []")
    case True
    then show ?thesis by (simp add: cleanQuery_def spec_cleanQuery_def cleaned)
  next
    case False
    have props: "\<forall>t\<in>set ?ts. t \<noteq> [] \<and> SP \<notin> set t"
      using tokens_props is_space_SP by blast
    then have "split_on SP (join_sp ?ts) = ?ts" using False split_on_join by blast
    moreover have "filter (\<lambda>word. length word > 0) ?ts = ?ts"
      using props by (simp add: filter_id_conv)
    moreover have "join_sp ?ts \<noteq> []"
      using False join_sp_tokens_hd by blast
    ultimately show ?thesis
      by (simp add: cleanQuery_def spec_cleanQuery_def cleaned Let_def)
  qed
qed


theorem cleanQuery_normalisation_witness:
  "cleanQuery (js ''  Fox!! '') = js ''Fox* Fox'' \<and>
   cleanQuery (js ''quick,  brown? fox'') = js ''quick brown fox'' \<and>
   cleanQuery (js '' ab '') = js ''ab''"
proof -
  have "spec_cleanQuery (js ''  Fox!! '') = js ''Fox* Fox''"
    and "spec_cleanQuery (js ''quick,  brown? fox'') = js ''quick brown fox''"
    and "spec_cleanQuery (js '' ab '') = js ''ab''"
    by code_simp+
  then show ?thesis
    using cleanQuery_normalisation [of "js ''  Fox!! ''"]
      cleanQuery_normalisation [of "js ''quick,  brown? fox''"]
      cleanQuery_normalisation [of "js '' ab ''"]
    by simp
qed

section \<open>Search Index: rebuild, removal and blank queries\<close>

lemma rtrim_all_space: "list_all is_space s \<Longrightarrow> rtrim s = []"
  by (induction s) simp_all

lemma trim_empty_iff_blank: "trim q = [] \<longleftrightarrow> blank q"
proof
  assume e: "trim q = []"
  obtain x z where "list_all is_space x" "list_all is_space z" "q = x @ trim q @ z"
    using trim_decomp by blast
  with e show "blank q" by (simp add: blank_def)
next
  assume "blank q"
  then show "trim q = []" by (simp add: blank_def trim_def rtrim_all_space)
qed

lemma saveIndex_no_index: "index st = None \<Longrightarrow> saveIndex ok st = (None, st)"
  by (simp add: saveIndex_def)

lemma documents_saveIndex: "documents (snd (saveIndex ok st)) = documents st"
  by (simp add: saveIndex_def split: option.splits)

lemma documents_rebuildIndex: "documents (snd (rebuildIndex X ok st)) = documents st"
  by (simp add: rebuildIndex_def Let_def documents_saveIndex split: option.splits)

lemma rebuildIndex_empty:
  "documents st = [] \<Longrightarrow> rebuildIndex X ok st = (None, st\<lparr>index := None\<rparr>)"
  by (simp add: rebuildIndex_def saveIndex_def)

lemma snd_finish: "snd (finish r) = snd r"
  by (cases r) (simp add: finish_def split: option.splits)

lemma search_no_index: "index st = None \<Longrightarrow> search X st q limit = Inr []"
  by (simp add: search_def)

text \<open>
  Claim C7. A blank query (empty or white space only), and any query while no index object
  exists, makes \<open>search\<close> return a successful result with an empty list, never a failure.
\<close>

theorem search_blank_or_no_index:
  "index st = None \<or> blank q \<Longrightarrow> search X st q limit = Inr []"
  by (auto simp: search_def trim_empty_iff_blank split: option.splits)

theorem search_blank_or_no_index_witness:
  "search demo_externals empty_index (js ''fox'') 10 = Inr [] \<and>
   search demo_externals (empty_index\<lparr>index := Some []\<rparr>) (js ''   '') 10 = Inr []"
proof -
  have a: "index empty_index = None \<or> blank (js ''fox'')"
    by (simp add: empty_index_def)
  have "blank (js ''   '')" by code_simp
  then have b: "index (empty_index\<lparr>index := Some []\<rparr>) = None \<or> blank (js ''   '')" by simp
  show ?thesis
    using search_blank_or_no_index [OF a] search_blank_or_no_index [OF b] by simp
qed

text \<open>
  Claim C5. A rebuild that runs with zero entries, through \<open>rebuildFromDocuments\<close> on an empty
  list or through \<open>rebuildIndex\<close> on an empty entry map, succeeds and leaves no index object;
  every search on the resulting state returns an empty successful result whatever the
  text-indexing primitive would answer, so the primitive is not consulted.
\<close>

theorem rebuild_with_zero_entries:
  "fst (rebuildFromDocuments X ok [] st) = Inr () \<and>
   index (snd (rebuildFromDocuments X ok [] st)) = None \<and>
   search X' (snd (rebuildFromDocuments X ok [] st)) q limit = Inr [] \<and>
   (documents st = [] \<longrightarrow>
      fst (rebuildIndex X ok st) = None \<and>
      index (snd (rebuildIndex X ok st)) = None \<and>
      search X' (snd (rebuildIndex X ok st)) q limit = Inr [])"
  by (simp add: rebuildFromDocuments_def rebuildIndex_empty finish_def search_no_index)

theorem rebuild_with_zero_entries_witness:
  "documents empty_index = [] \<and>
   fst (rebuildIndex demo_externals False empty_index) = None \<and>
   index (snd (rebuildIndex demo_externals False empty_index)) = None \<and>
   search demo_externals (snd (rebuildIndex demo_externals False empty_index)) (js ''fox'') 10 = Inr [] \<and>
   index (snd (rebuildFromDocuments demo_externals True [] (empty_index\<lparr>index := Some []\<rparr>))) = None"
proof -
  have d: "documents empty_index = []" by (simp add: empty_index_def)
  show ?thesis
    using d rebuild_with_zero_entries
      [of demo_externals False empty_index demo_externals "js ''fox''" 10]
      rebuild_with_zero_entries
      [of demo_externals True "empty_index\<lparr>index := Some []\<rparr>" demo_externals "js ''fox''" 10]
    by simp
qed

text \<open>
  Claim C9. Removing the last remaining document through \<open>removeDocument\<close> succeeds, leaves
  the entry map empty and the index object absent, and leaves the persisted index file as it
  was: \<open>saveIndex\<close> returns without writing when there is no index object, so the file still
  lists what it listed before the removal.
\<close>

theorem removeDocument_last_keeps_file:
  "documents st = [(i, e)] \<Longrightarrow>
     fst (removeDocument X ok i st) = Inr () \<and>
     documents (snd (removeDocument X ok i st)) = [] \<and>
     index (snd (removeDocument X ok i st)) = None \<and>
     index_file (snd (removeDocument X ok i st)) = index_file st"
  by (simp add: removeDocument_def rebuildIndex_empty finish_def AList.delete_eq)


lemma demo_index_documents: "documents demo_index = [(d_id demo_doc, to_entry demo_doc)]"
  by (simp add: demo_index_def SearchIndex_addDocument_def snd_finish documents_rebuildIndex
      empty_index_def)

lemma demo_index_file:
  "index_file demo_index = Some ([to_lunr_doc (to_entry demo_doc)], [to_entry demo_doc])"
  by (simp add: demo_index_def SearchIndex_addDocument_def finish_def rebuildIndex_def
      saveIndex_def empty_index_def demo_externals_def)

theorem removeDocument_last_keeps_file_witness:
  "documents demo_index = [(d_id demo_doc, to_entry demo_doc)] \<and>
   fst (removeDocument demo_externals True (d_id demo_doc) demo_index) = Inr () \<and>
   documents (snd (removeDocument demo_externals True (d_id demo_doc) demo_index)) = [] \<and>
   index (snd (removeDocument demo_externals True (d_id demo_doc) demo_index)) = None \<and>
   index_file (snd (removeDocument demo_externals True (d_id demo_doc) demo_index)) =
     Some ([to_lunr_doc (to_entry demo_doc)], [to_entry demo_doc])"
  using removeDocument_last_keeps_file [OF demo_index_documents, of demo_externals True]
    demo_index_documents demo_index_file
  by simp

section \<open>Search Index: the truncation cap\<close>

lemma addDocument_entry:
  "map_of (documents (snd (SearchIndex_addDocument X ok doc st))) (d_id doc) = Some (to_entry doc)"
  by (simp add: SearchIndex_addDocument_def snd_finish documents_rebuildIndex update_conv')

lemma to_entry_content:
  "e_content (to_entry doc) =
     (if length (d_content doc) \<le> 10000 then d_content doc
      else take 10000 (d_content doc) @ [0x2E, 0x2E, 0x2E])"
  by (simp add: to_entry_def truncateContent_def)

text \<open>
  Claim C4, as amended. For every document passed to \<open>SearchIndex.addDocument\<close> or
  \<open>updateDocument\<close>, the stored Index Entry's content is the document's content when that
  has at most 10,000 code units, and otherwise its first 10,000 code units followed by the
  three-character marker \<open>...\<close>; so it has at most 10,003 code units, and exactly 10,003
  when the content exceeds the cap.
\<close>

theorem index_entry_content_cap:
  "map_of (documents (snd (SearchIndex_addDocument X ok doc st))) (d_id doc) = Some (to_entry doc) \<and>
   map_of (documents (snd (SearchIndex_updateDocument X ok doc st))) (d_id doc) = Some (to_entry doc) \<and>
   e_content (to_entry doc) =
     (if length (d_content doc) \<le> 10000 then d_content doc
      else take 10000 (d_content doc) @ [0x2E, 0x2E, 0x2E]) \<and>
   length (e_content (to_entry doc)) \<le> 10003 \<and>
   (length (d_content doc) > 10000 \<longrightarrow> length (e_content (to_entry doc)) = 10003)"
  by (simp add: addDocument_entry SearchIndex_updateDocument_def to_entry_content)

lemma long_doc_content: "length (d_content long_doc) = 10001"
  by (simp add: long_doc_def)

theorem index_entry_content_cap_witness:
  "length (d_content long_doc) > 10000 \<and>
   map_of (documents (snd (SearchIndex_addDocument demo_externals True long_doc empty_index)))
     (d_id long_doc) = Some (to_entry long_doc) \<and>
   length (e_content (to_entry long_doc)) = 10003"
  using index_entry_content_cap [of demo_externals True long_doc empty_index] long_doc_content
  by simp

theorem index_entry_exceeds_cap_counterexample:
  "map_option (length \<circ> e_content)
     (map_of (documents (snd (SearchIndex_addDocument demo_externals True long_doc empty_index)))
        (d_id long_doc)) = Some 10003"
  using long_doc_content by (simp add: addDocument_entry to_entry_content)

section \<open>Document Store\<close>

lemma saveMetadata_metadata: "store_metadata (snd (saveMetadata ok st)) = store_metadata st"
  by (simp add: saveMetadata_def)

lemma saveMetadata_slots: "slot_files (snd (saveMetadata ok st)) = slot_files st"
  by (simp add: saveMetadata_def)

lemma addDocument_success:
  assumes "DocumentStore_addDocument fx p c ty md st = (Inr doc, st1)"
  shows "doc = new_document fx p c ty md"
    and "store_metadata st1 = AList.update (d_id doc) doc (store_metadata st)"
    and "slot_files st1 = AList.update (d_id doc) doc (slot_files st)"
  using assms
  by (auto simp: DocumentStore_addDocument_def Let_def saveMetadata_def
      split: if_splits prod.splits option.splits)

lemma d_id_new_document: "d_id (new_document fx p c ty md) = nanoid fx"
  by (simp add: new_document_def Let_def)

lemma updateDocument_success:
  assumes "map_of (store_metadata st) i = Some d"
    and "DocumentStore_updateDocument now sok mok i upd st = (Inr d', st')"
  shows "d' = updated_document now d upd"
    and "store_metadata st' = AList.update i d' (store_metadata st)"
    and "slot_files st' = AList.update i d' (slot_files st)"
  using assms
  by (auto simp: DocumentStore_updateDocument_def Let_def saveMetadata_def
      split: if_splits prod.splits option.splits)

lemma demo_store_metadata: "store_metadata demo_store = [(js ''id1'', demo_doc)]"
  by (simp add: demo_store_def DocumentStore_addDocument_def Let_def saveMetadata_def
      demo_fx_def empty_store_def demo_doc_def d_id_new_document)

lemma demo_doc_path: "d_path demo_doc = js ''/docs/a.txt''" and demo_doc_id: "d_id demo_doc = js ''id1''"
  by (simp_all add: demo_doc_def new_document_def demo_fx_def Let_def)

text \<open>
  Claim C1, as amended. When \<open>updateDocument\<close> succeeds on a stored document, the returned
  record is the one stored under the identifier in memory and in the durable slot, and its
  \<open>id\<close> is the stored document's \<open>id\<close> whatever the payload carries. Its \<open>path\<close> is the stored
  document's path when the payload has no \<open>path\<close> entry, and the payload's path otherwise.
\<close>

theorem updateDocument_id_and_path:
  assumes "map_of (store_metadata st) i = Some d"
    and "DocumentStore_updateDocument now sok mok i upd st = (Inr d', st')"
  shows "d_id d' = d_id d \<and>
         map_of (store_metadata st') i = Some d' \<and>
         map_of (slot_files st') i = Some d' \<and>
         d_path d' = (case p_path upd of None \<Rightarrow> d_path d | Some p \<Rightarrow> p)"
  using updateDocument_success [OF assms]
  by (simp add: updated_document_def pick_def update_conv')

lemma demo_update_fst:
  "fst (DocumentStore_updateDocument (js ''2024-02-02T00:00:00.000Z'') True True (js ''id1'')
     demo_update demo_store) =
   Inr (updated_document (js ''2024-02-02T00:00:00.000Z'') demo_doc demo_update)"
  by (simp add: DocumentStore_updateDocument_def demo_store_metadata Let_def saveMetadata_def)

theorem updateDocument_id_and_path_witness:
  "map_of (store_metadata demo_store) (js ''id1'') = Some demo_doc \<and>
   d_id (updated_document (js ''2024-02-02T00:00:00.000Z'') demo_doc demo_update) = js ''id1'' \<and>
   d_path (updated_document (js ''2024-02-02T00:00:00.000Z'') demo_doc demo_update) =
     js ''/elsewhere/b.txt''"
proof -
  have a: "map_of (store_metadata demo_store) (js ''id1'') = Some demo_doc"
    by (simp add: demo_store_metadata)
  show ?thesis
  proof -
    have r: "DocumentStore_updateDocument (js ''2024-02-02T00:00:00.000Z'') True True (js ''id1'')
        demo_update demo_store =
      (Inr (updated_document (js ''2024-02-02T00:00:00.000Z'') demo_doc demo_update),
       snd (DocumentStore_updateDocument (js ''2024-02-02T00:00:00.000Z'') True True (js ''id1'')
        demo_update demo_store))"
      using demo_update_fst by (simp add: prod_eq_iff)
    show ?thesis
      using a updateDocument_id_and_path [OF a r]
      by (simp add: demo_update_def demo_doc_id)
  qed
qed

theorem updateDocument_path_counterexample:
  "map_of (store_metadata demo_store) (js ''id1'') = Some demo_doc \<and>
   d_path demo_doc = js ''/docs/a.txt'' \<and>
   map_sum id d_path
     (fst (DocumentStore_updateDocument (js ''2024-02-02T00:00:00.000Z'') True True (js ''id1'')
             demo_update demo_store)) = Inr (js ''/elsewhere/b.txt'') \<and>
   js ''/elsewhere/b.txt'' \<noteq> js ''/docs/a.txt''"
proof -
  have "js ''/elsewhere/b.txt'' \<noteq> js ''/docs/a.txt''" by code_simp
  moreover have "map_sum id d_path
     (fst (DocumentStore_updateDocument (js ''2024-02-02T00:00:00.000Z'') True True (js ''id1'')
             demo_update demo_store)) =
     Inr (d_path (updated_document (js ''2024-02-02T00:00:00.000Z'') demo_doc demo_update))"
    by (simp add: demo_update_fst)
  moreover have "d_path (updated_document (js ''2024-02-02T00:00:00.000Z'') demo_doc demo_update) =
     js ''/elsewhere/b.txt''"
    by (simp add: updated_document_def pick_def demo_update_def)
  ultimately show ?thesis
    by (simp add: demo_store_metadata demo_doc_path)
qed


lemma tokens_dropWhile: "tokens (dropWhile is_space s) = tokens s"
proof -
  have "list_all is_space (takeWhile is_space s)"
    using set_takeWhileD[of _ is_space s] by (auto simp: list_all_iff)
  then show ?thesis
    using tokens_spaces_append[of "takeWhile is_space s" "dropWhile is_space s"] by simp
qed

lemma split_ws_tokens: "filter (\<lambda>word. word \<noteq> []) (split_ws s) = tokens s"
proof (induction s rule: split_ws.induct)
  case (1 s)
  let ?rest = "dropWhile (\<lambda>c. \<not> is_space c) s"
  show ?case
  proof (cases s)
    case Nil
    then show ?thesis by (subst split_ws.simps) simp
  next
    case (Cons c cs)
    show ?thesis
    proof (cases "is_space c")
      case True
      then have r: "?rest = c # cs" and f: "takeWhile (\<lambda>c. \<not> is_space c) s = []"
        using Cons by simp_all
      have ih: "filter (\<lambda>word. word \<noteq> []) (split_ws (dropWhile is_space cs)) =
          tokens (dropWhile is_space cs)"
        using "1.IH"[OF refl refl] r by simp
      have "split_ws s = [] # split_ws (dropWhile is_space cs)"
        by (subst split_ws.simps) (simp add: r f Let_def)
      then show ?thesis using ih True Cons by (simp add: tokens_dropWhile)
    next
      case False
      then have f: "takeWhile (\<lambda>c. \<not> is_space c) s = c # takeWhile (\<lambda>c. \<not> is_space c) cs"
        and r: "?rest = dropWhile (\<lambda>c. \<not> is_space c) cs"
        using Cons by simp_all
      show ?thesis
      proof (cases "?rest = []")
        case True
        then have "split_ws s = [c # takeWhile (\<lambda>c. \<not> is_space c) cs]"
          by (subst split_ws.simps) (simp add: f Let_def)
        moreover have "dropWhile (\<lambda>c. \<not> is_space c) cs = []"
          using True r by simp
        then have "tokens s = [c # takeWhile (\<lambda>c. \<not> is_space c) cs]"
          using False Cons by (simp only: tokens.simps if_False)
        ultimately show ?thesis by simp
      next
        case ne: False
        then obtain x xs where x: "?rest = x # xs" by (cases ?rest) auto
        then have sx: "is_space x" using hd_dropWhile[of "\<lambda>c. \<not> is_space c" s] by auto
        have ih: "filter (\<lambda>word. word \<noteq> []) (split_ws (dropWhile is_space xs)) =
            tokens (dropWhile is_space xs)"
          using "1.IH"[OF refl refl ne] x by simp
        have "split_ws s =
            (c # takeWhile (\<lambda>c. \<not> is_space c) cs) # split_ws (dropWhile is_space xs)"
          by (subst split_ws.simps) (simp add: f x Let_def)
        moreover have "tokens s = (c # takeWhile (\<lambda>c. \<not> is_space c) cs) # tokens xs"
          using False Cons r x sx by simp
        ultimately show ?thesis using ih by (simp add: tokens_dropWhile)
      qed
    qed
  qed
qed

lemma addDocument_ok:
  "slot_write_ok fx \<Longrightarrow> manifest_write_ok fx \<Longrightarrow>
     fst (DocumentStore_addDocument fx p c ty md st) = Inr (new_document fx p c ty md)"
  by (simp add: DocumentStore_addDocument_def Let_def saveMetadata_def)

lemma getDocument_present:
  "map_of (store_metadata st) i = Some doc \<Longrightarrow> map_of (slot_files st) i \<noteq> None \<Longrightarrow>
     getDocument ok i st = (Inr doc, st)"
  by (auto simp: getDocument_def)

lemma new_document_metadata:
  "absent pm_size md \<Longrightarrow> size_bytes (d_metadata (new_document fx p c ty md)) = int (byteLength c)"
  "absent pm_wordCount md \<Longrightarrow>
     wordCount (d_metadata (new_document fx p c ty md)) = Some (int (length (tokens c)))"
  "absent pm_createdAt md \<Longrightarrow> createdAt (d_metadata (new_document fx p c ty md)) = now_created fx"
  "absent pm_updatedAt md \<Longrightarrow> updatedAt (d_metadata (new_document fx p c ty md)) = now_updated fx"
  by (auto simp: absent_def new_document_def Let_def spread_metadata_def pick_def pick_opt_def
      split_ws_tokens split: option.splits)

text \<open>
  Claim C2, as amended. When \<open>addDocument\<close> succeeds, an immediately following \<open>getDocument\<close>
  on the new id returns the created record and leaves the store as it is. In that record
  \<open>size\<close> is the UTF-8 byte length of the content when the metadata overrides carry no \<open>size\<close>,
  and \<open>wordCount\<close> is the number of white-space-delimited non-empty tokens of the content when
  the overrides carry no \<open>wordCount\<close>.
\<close>

theorem addDocument_then_getDocument:
  assumes "DocumentStore_addDocument fx p c ty md st = (Inr doc, st1)"
  shows "getDocument ok (d_id doc) st1 = (Inr doc, st1) \<and>
         (absent pm_size md \<longrightarrow> size_bytes (d_metadata doc) = int (byteLength c)) \<and>
         (absent pm_wordCount md \<longrightarrow>
            wordCount (d_metadata doc) = Some (int (length (tokens c))))"
proof -
  note s = addDocument_success [OF assms]
  have "map_of (store_metadata st1) (d_id doc) = Some doc"
    and "map_of (slot_files st1) (d_id doc) \<noteq> None"
    by (simp_all add: s(2,3) update_conv')
  then have "getDocument ok (d_id doc) st1 = (Inr doc, st1)"
    by (rule getDocument_present)
  then show ?thesis
    by (simp add: s(1) new_document_metadata)
qed

lemma demo_add_result:
  "DocumentStore_addDocument (demo_fx ''id1'') (js ''/docs/a.txt'')
     (js ''The quick brown fox jumps'') Txt None empty_store = (Inr demo_doc, demo_store)"
  by (simp add: prod_eq_iff addDocument_ok demo_doc_def demo_store_def demo_fx_def)

theorem addDocument_then_getDocument_witness:
  "absent pm_size None \<and> absent pm_wordCount None \<and>
   getDocument True (js ''id1'') demo_store = (Inr demo_doc, demo_store) \<and>
   size_bytes (d_metadata demo_doc) = 25 \<and>
   wordCount (d_metadata demo_doc) = Some 5"
proof -
  have a: "absent pm_size None" "absent pm_wordCount None"
    by (simp_all add: absent_def)
  have b: "byteLength (js ''The quick brown fox jumps'') = 25"
    "length (tokens (js ''The quick brown fox jumps'')) = 5"
    by code_simp+
  show ?thesis
    using a b addDocument_then_getDocument [OF demo_add_result, of True]
    by (simp add: demo_doc_id)
qed

theorem addDocument_overrides_counterexample:
  "fst (DocumentStore_addDocument (demo_fx ''id1'') (js ''/docs/a.txt'')
          (js ''The quick brown fox jumps'') Txt sized_md empty_store) =
     Inr (new_document (demo_fx ''id1'') (js ''/docs/a.txt'') (js ''The quick brown fox jumps'')
            Txt sized_md) \<and>
   fst (getDocument True (js ''id1'')
          (snd (DocumentStore_addDocument (demo_fx ''id1'') (js ''/docs/a.txt'')
                  (js ''The quick brown fox jumps'') Txt sized_md empty_store))) =
     Inr (new_document (demo_fx ''id1'') (js ''/docs/a.txt'') (js ''The quick brown fox jumps'')
            Txt sized_md) \<and>
   size_bytes (d_metadata (new_document (demo_fx ''id1'') (js ''/docs/a.txt'')
     (js ''The quick brown fox jumps'') Txt sized_md)) = 0 \<and>
   byteLength (js ''The quick brown fox jumps'') = 25"
proof -
  have b: "byteLength (js ''The quick brown fox jumps'') = 25" by code_simp
  have ok: "slot_write_ok (demo_fx ''id1'')" "manifest_write_ok (demo_fx ''id1'')"
    "nanoid (demo_fx ''id1'') = js ''id1''"
    by (simp_all add: demo_fx_def)
  have add: "fst (DocumentStore_addDocument (demo_fx ''id1'') (js ''/docs/a.txt'')
          (js ''The quick brown fox jumps'') Txt sized_md empty_store) =
     Inr (new_document (demo_fx ''id1'') (js ''/docs/a.txt'') (js ''The quick brown fox jumps'')
            Txt sized_md)"
    using ok by (simp add: addDocument_ok)
  then have "DocumentStore_addDocument (demo_fx ''id1'') (js ''/docs/a.txt'')
          (js ''The quick brown fox jumps'') Txt sized_md empty_store =
     (Inr (new_document (demo_fx ''id1'') (js ''/docs/a.txt'') (js ''The quick brown fox jumps'')
            Txt sized_md),
      snd (DocumentStore_addDocument (demo_fx ''id1'') (js ''/docs/a.txt'')
          (js ''The quick brown fox jumps'') Txt sized_md empty_store))"
    by (simp add: prod_eq_iff)
  note s = addDocument_success [OF this]
  have get: "fst (getDocument True (js ''id1'')
          (snd (DocumentStore_addDocument (demo_fx ''id1'') (js ''/docs/a.txt'')
                  (js ''The quick brown fox jumps'') Txt sized_md empty_store))) =
     Inr (new_document (demo_fx ''id1'') (js ''/docs/a.txt'') (js ''The quick brown fox jumps'')
            Txt sized_md)"
    using ok(3) by (simp add: getDocument_def s(2,3) update_conv' d_id_new_document)
  have sz: "size_bytes (d_metadata (new_document (demo_fx ''id1'') (js ''/docs/a.txt'')
     (js ''The quick brown fox jumps'') Txt sized_md)) = 0"
    by (simp add: new_document_def Let_def spread_metadata_def sized_md_def empty_partial_def
        pick_def)
  show ?thesis using add get sz b by simp
qed

text \<open>
  The two timestamps of a new record are two readings of the clock: without timestamp
  overrides they are equal exactly when the readings are, and a plain add whose readings
  fall in different milliseconds yields a record with \<open>createdAt\<close> different from \<open>updatedAt\<close>.
\<close>

lemma new_document_timestamps:
  "absent pm_createdAt md \<Longrightarrow> absent pm_updatedAt md \<Longrightarrow>
     createdAt (d_metadata (new_document fx p c ty md)) =
       updatedAt (d_metadata (new_document fx p c ty md)) \<longleftrightarrow>
     now_created fx = now_updated fx"
  by (simp add: new_document_metadata)

lemma plain_add_two_clock_readings:
  "fst (DocumentStore_addDocument ticking_fx (js ''/docs/a.txt'')
          (js ''The quick brown fox jumps'') Txt None empty_store) =
     Inr (new_document ticking_fx (js ''/docs/a.txt'') (js ''The quick brown fox jumps'') Txt
            None) \<and>
   createdAt (d_metadata (new_document ticking_fx (js ''/docs/a.txt'')
     (js ''The quick brown fox jumps'') Txt None)) \<noteq>
   updatedAt (d_metadata (new_document ticking_fx (js ''/docs/a.txt'')
     (js ''The quick brown fox jumps'') Txt None))"
proof -
  have t: "js ''2024-01-01T00:00:00.000Z'' \<noteq> js ''2024-01-01T00:00:00.001Z''" by code_simp
  have ok: "slot_write_ok ticking_fx" "manifest_write_ok ticking_fx"
    by (simp_all add: ticking_fx_def demo_fx_def)
  have "createdAt (d_metadata (new_document ticking_fx (js ''/docs/a.txt'')
     (js ''The quick brown fox jumps'') Txt None)) \<noteq>
   updatedAt (d_metadata (new_document ticking_fx (js ''/docs/a.txt'')
     (js ''The quick brown fox jumps'') Txt None))"
    using t
    by (simp add: new_document_def Let_def spread_metadata_def ticking_fx_def demo_fx_def)
  with ok show ?thesis by (simp add: addDocument_ok)
qed

text \<open>
  Claim C3 (the code departs from it). The claim is that a document added without an
  explicit title is titled by the basename of its path whatever tags the overrides carry.
  \<open>addDocument\<close> takes the first tag instead when there is a non-empty one: adding
  \<open>/docs/a.txt\<close> with the tags \<open>["project"]\<close> yields the title \<open>project\<close>, not \<open>a.txt\<close>.
\<close>

theorem addDocument_title_is_first_tag:
  "map_sum id d_title
     (fst (DocumentStore_addDocument (demo_fx ''id1'') (js ''/docs/a.txt'')
             (js ''The quick brown fox jumps'') Txt tagged_md empty_store)) =
     Inr (js ''project'') \<and>
   basename (js ''/docs/a.txt'') = js ''a.txt'' \<and>
   js ''project'' \<noteq> js ''a.txt''"
proof -
  have "basename (js ''/docs/a.txt'') = js ''a.txt''" "js ''project'' \<noteq> js ''a.txt''"
    by code_simp+
  moreover have "js ''project'' \<noteq> []" by (simp add: js_def)
  ultimately show ?thesis
    by (simp add: addDocument_ok demo_fx_def new_document_def Let_def initial_title_def
        tagged_md_def empty_partial_def)
qed

section \<open>Search Index: results and the entry map\<close>

lemma keyed_by_lookup:
  "keyed_by ident m \<Longrightarrow> map_of m k = Some v \<Longrightarrow> ident v = k"
  by (auto simp: keyed_by_def list_all_iff dest: map_of_SomeD)

lemma to_result_Some:
  assumes "keyed_by e_id (documents st)" and "to_result X st q h = Some r"
  shows "r_id r = h_ref h" and "h_ref h \<in> fst ` set (documents st)"
proof -
  from assms(2) obtain e where e: "map_of (documents st) (h_ref h) = Some e" "r_id r = e_id e"
    by (auto simp: to_result_def split: option.splits)
  with assms(1) show "r_id r = h_ref h" by (simp add: keyed_by_lookup)
  from e(1) show "h_ref h \<in> fst ` set (documents st)"
    by (metis map_of_eq_None_iff option.distinct(1))
qed

lemma to_result_None: "to_result X st q h = None \<longleftrightarrow> h_ref h \<notin> fst ` set (documents st)"
proof -
  have "to_result X st q h = None \<longleftrightarrow> map_of (documents st) (h_ref h) = None"
    by (simp add: to_result_def split: option.splits)
  then show ?thesis by (simp add: map_of_eq_None_iff)
qed

lemma map_filter_to_result:
  assumes "keyed_by e_id (documents st)"
  shows "map r_id (List.map_filter (to_result X st q) hs) =
         filter (\<lambda>i. i \<in> fst ` set (documents st)) (map h_ref hs)"
proof (induction hs)
  case Nil
  then show ?case by simp
next
  case (Cons h hs)
  show ?case
  proof (cases "to_result X st q h")
    case None
    then have "h_ref h \<notin> fst ` set (documents st)" by (simp add: to_result_None)
    with None Cons show ?thesis by simp
  next
    case (Some r)
    with to_result_Some [OF assms Some] Cons show ?thesis by simp
  qed
qed

text \<open>
  Claim C10. Every result \<open>search\<close> returns has an id that is a key of the in-memory entry
  map. When the index answers a query, the results are, in order, the hits among the first
  \<open>limit\<close> raw hits whose reference is a key of the entry map: a raw hit that is not is dropped
  after the cut at \<open>limit\<close>, so fewer than \<open>limit\<close> results may come back although the index
  matched at least \<open>limit\<close> documents.
\<close>

theorem search_results_in_entry_map:
  assumes "keyed_by e_id (documents st)" and "search X st q limit = Inr rs"
  shows "(\<forall>r\<in>set rs. r_id r \<in> fst ` set (documents st)) \<and>
         (\<forall>idx hits.
            index st = Some idx \<and> \<not> blank q \<and> cleanQuery q \<noteq> [] \<and>
            lunr_search X idx (cleanQuery q) = Inr hits \<longrightarrow>
            map r_id rs =
              filter (\<lambda>i. i \<in> fst ` set (documents st)) (map h_ref (slice0 hits limit)))"
proof -
  have ids: "set (map r_id (List.map_filter (to_result X st q) hs)) \<subseteq> fst ` set (documents st)"
    for hs
    by (auto simp: map_filter_to_result [OF assms(1)])
  have a: "\<forall>r\<in>set rs. r_id r \<in> fst ` set (documents st)"
  proof (cases "\<exists>hs. rs = List.map_filter (to_result X st q) hs")
    case True
    then obtain hs where "rs = List.map_filter (to_result X st q) hs" by blast
    with ids [of hs] show ?thesis by auto
  next
    case False
    with assms(2) have "rs = []"
      by (auto simp: search_def Let_def split: option.splits if_splits sum.splits)
    then show ?thesis by simp
  qed
  have b: "map r_id rs =
      filter (\<lambda>i. i \<in> fst ` set (documents st)) (map h_ref (slice0 hits limit))"
    if "index st = Some idx" "\<not> blank q" "cleanQuery q \<noteq> []"
      "lunr_search X idx (cleanQuery q) = Inr hits" for idx hits
  proof -
    from that assms(2) have "rs = List.map_filter (to_result X st q) (slice0 hits limit)"
      by (simp add: search_def Let_def trim_empty_iff_blank)
    then show ?thesis by (simp add: map_filter_to_result [OF assms(1)])
  qed
  from a b show ?thesis by blast
qed

lemma stale_index_fields:
  "index stale_index = Some [ghost_doc, to_lunr_doc (to_entry demo_doc)]"
  "documents stale_index = [(js ''id1'', to_entry demo_doc)]"
  by (simp_all add: stale_index_def loadIndex_def empty_index_def to_entry_def demo_doc_id)

lemma demo_query: "\<not> blank (js ''fox'')" "cleanQuery (js ''fox'') = js ''fox* fox''"
  "js ''fox* fox'' \<noteq> []" "js ''id0'' \<noteq> js ''id1''"
  by code_simp+

theorem search_results_in_entry_map_witness:
  "keyed_by e_id (documents stale_index) \<and>
   lunr_search demo_externals [ghost_doc, to_lunr_doc (to_entry demo_doc)] (cleanQuery (js ''fox'')) =
     Inr [\<lparr>h_ref = js ''id0'', h_score = 1\<rparr>, \<lparr>h_ref = js ''id1'', h_score = 1\<rparr>] \<and>
   search demo_externals stale_index (js ''fox'') 2 =
     Inr [\<lparr>r_id = js ''id1'', r_title = d_title demo_doc, r_score = 1,
           r_snippet = extractSnippet demo_externals (e_content (to_entry demo_doc)) (js ''fox'')\<rparr>] \<and>
   js ''id1'' \<in> fst ` set (documents stale_index) \<and>
   [js ''id1''] =
     filter (\<lambda>i. i \<in> fst ` set (documents stale_index))
       (map h_ref (slice0 [\<lparr>h_ref = js ''id0'', h_score = 1\<rparr>, \<lparr>h_ref = js ''id1'', h_score = 1\<rparr>] 2)) \<and>
   search demo_externals stale_index (js ''fox'') 1 = Inr []"
proof -
  have k: "keyed_by e_id (documents stale_index)"
    by (simp add: stale_index_fields keyed_by_def to_entry_def demo_doc_id)
  have h: "lunr_search demo_externals [ghost_doc, to_lunr_doc (to_entry demo_doc)]
      (cleanQuery (js ''fox'')) =
     Inr [\<lparr>h_ref = js ''id0'', h_score = 1\<rparr>, \<lparr>h_ref = js ''id1'', h_score = 1\<rparr>]"
    by (simp add: demo_externals_def ghost_doc_def to_lunr_doc_def to_entry_def demo_doc_id)
  have s2: "search demo_externals stale_index (js ''fox'') 2 =
     Inr [\<lparr>r_id = js ''id1'', r_title = d_title demo_doc, r_score = 1,
           r_snippet = extractSnippet demo_externals (e_content (to_entry demo_doc)) (js ''fox'')\<rparr>]"
    using demo_query h
    by (simp add: search_def stale_index_fields trim_empty_iff_blank Let_def slice0_def
        to_result_def to_entry_def demo_doc_id)
  have s1: "search demo_externals stale_index (js ''fox'') 1 = Inr []"
    using demo_query h
    by (simp add: search_def stale_index_fields trim_empty_iff_blank Let_def slice0_def
        to_result_def)
  note t = search_results_in_entry_map [OF k s2]
  have "index stale_index = Some [ghost_doc, to_lunr_doc (to_entry demo_doc)] \<and>
      \<not> blank (js ''fox'') \<and> cleanQuery (js ''fox'') \<noteq> [] \<and>
      lunr_search demo_externals [ghost_doc, to_lunr_doc (to_entry demo_doc)]
        (cleanQuery (js ''fox'')) =
      Inr [\<lparr>h_ref = js ''id0'', h_score = 1\<rparr>, \<lparr>h_ref = js ''id1'', h_score = 1\<rparr>]"
    using demo_query h by (simp add: stale_index_fields)
  from t [THEN conjunct2, rule_format, OF this]
  have f: "[js ''id1''] =
     filter (\<lambda>i. i \<in> fst ` set (documents stale_index))
       (map h_ref (slice0 [\<lparr>h_ref = js ''id0'', h_score = 1\<rparr>, \<lparr>h_ref = js ''id1'', h_score = 1\<rparr>] 2))"
    by simp
  from t have m: "js ''id1'' \<in> fst ` set (documents stale_index)" by simp
  show ?thesis
    using k h s2 s1 f m by simp
qed

section \<open>Filesystem Reconciler: the added handler\<close>

lemma at_most_one_eq: "length xs \<le> 1 \<Longrightarrow> a \<in> set xs \<Longrightarrow> b \<in> set xs \<Longrightarrow> a = b"
  by (cases xs) auto

lemma filter_update_fresh:
  "filter P (map snd m) = [] \<Longrightarrow> P v \<Longrightarrow> filter P (map snd (AList.update k v m)) = [v]"
  by (induction m) (auto split: if_splits)

lemma filter_delete_only:
  assumes "keyed_by ident m" and "find P (map snd m) = Some v"
    and "length (filter P (map snd m)) \<le> 1"
  shows "filter P (map snd (AList.delete (ident v) m)) = []"
proof -
  from assms(2) have v: "v \<in> set (filter P (map snd m))"
    by (auto simp: find_Some_iff)
  have "\<not> P d" if "(k, d) \<in> set (AList.delete (ident v) m)" for k d
  proof
    assume "P d"
    from that have in_m: "(k, d) \<in> set m" and k: "k \<noteq> ident v"
      by (auto simp: AList.delete_eq)
    with \<open>P d\<close> have "d \<in> set (filter P (map snd m))" by force
    with at_most_one_eq [OF assms(3) _ v] have "d = v" by blast
    moreover from assms(1) in_m have "ident d = k"
      by (auto simp: keyed_by_def list_all_iff)
    ultimately show False using k by simp
  qed
  then show ?thesis by (auto simp: filter_empty_conv)
qed

lemma getDocumentByPath_Inr:
  "getDocumentByPath ok p st = (Inr d, st') \<Longrightarrow> st' = st"
  by (auto simp: getDocumentByPath_def evict_def saveMetadata_def
      split: option.splits if_splits)

lemma getDocumentByPath_live:
  "live_at p st \<Longrightarrow> \<exists>d. getDocumentByPath ok p st = (Inr d, st)"
  by (auto simp: getDocumentByPath_def live_at_def split: option.splits)

lemma getDocumentByPath_Inl:
  assumes "keyed_by d_id (store_metadata st)" and "length (documents_at p st) \<le> 1"
    and "getDocumentByPath ok p st = (Inl e, st')"
  shows "documents_at p st' = []"
proof (cases "find (\<lambda>doc. d_path doc = p) (map snd (store_metadata st))")
  case None
  with assms(3) have "st' = st" by (simp add: getDocumentByPath_def)
  moreover from None have "documents_at p st = []"
    by (auto simp: documents_at_def find_None_iff filter_empty_conv)
  ultimately show ?thesis by simp
next
  case (Some doc)
  with assms(3) have "store_metadata st' = AList.delete (d_id doc) (store_metadata st)"
    by (auto simp: getDocumentByPath_def evict_def saveMetadata_def split: if_splits)
  with filter_delete_only [OF assms(1) Some] assms(2) show ?thesis
    by (simp add: documents_at_def)
qed

lemma d_path_new_document: "d_path (new_document fx p c ty md) = p"
  by (simp add: new_document_def Let_def)

lemma addDocument_at_most_one:
  assumes "documents_at p st = []"
  shows "length (documents_at p (snd (DocumentStore_addDocument fx p c ty md st))) \<le> 1"
proof (cases "slot_write_ok fx")
  case False
  with assms show ?thesis by (simp add: DocumentStore_addDocument_def Let_def)
next
  case True
  then have "store_metadata (snd (DocumentStore_addDocument fx p c ty md st)) =
      AList.update (nanoid fx) (new_document fx p c ty md) (store_metadata st)"
    by (simp add: DocumentStore_addDocument_def Let_def saveMetadata_def d_id_new_document)
  with assms show ?thesis
    by (simp add: documents_at_def filter_update_fresh d_path_new_document)
qed

lemma handleFileAdded_live: "live_at p (w_store w) \<Longrightarrow> handleFileAdded X fx p w = w"
proof -
  assume "live_at p (w_store w)"
  then obtain d where "getDocumentByPath (evict_write_ok fx) p (w_store w) = (Inr d, w_store w)"
    using getDocumentByPath_live by blast
  then show ?thesis by (simp add: handleFileAdded_def)
qed

lemma live_at_nonempty: "live_at p st \<Longrightarrow> documents_at p st \<noteq> []"
  by (auto simp: live_at_def documents_at_def find_Some_iff filter_empty_conv
      split: option.splits)

lemma handleFileAdded_at_most_one:
  assumes "keyed_by d_id (store_metadata (w_store w))"
    and "length (documents_at p (w_store w)) \<le> 1"
  shows "length (documents_at p (w_store (handleFileAdded X fx p w))) \<le> 1"
proof (cases "isSupported X p")
  case False
  with assms(2) show ?thesis by (simp add: handleFileAdded_def)
next
  case True
  obtain r store1 where g: "getDocumentByPath (evict_write_ok fx) p (w_store w) = (r, store1)"
    by (cases "getDocumentByPath (evict_write_ok fx) p (w_store w)")
  show ?thesis
  proof (cases r)
    case (Inr d)
    with g have "store1 = w_store w" by (simp add: getDocumentByPath_Inr)
    with True g Inr assms(2) show ?thesis by (simp add: handleFileAdded_def)
  next
    case (Inl e)
    with g assms have none: "documents_at p store1 = []"
      by (simp add: getDocumentByPath_Inl)
    show ?thesis
    proof (cases "processed fx")
      case failed: (Inl e')
      with True g Inl none show ?thesis by (simp add: handleFileAdded_def)
    next
      case (Inr pf)
      have "w_store (handleFileAdded X fx p w) =
          snd (DocumentStore_addDocument (add_fx fx) p (pf_content pf) (pf_type pf)
                 (pf_metadata pf) store1)"
        using True g Inl Inr
        by (simp add: handleFileAdded_def split: prod.splits sum.splits)
      with addDocument_at_most_one [OF none] show ?thesis by simp
    qed
  qed
qed

text \<open>
  Claim C6, as amended. Take a store that is a well-formed map (one entry per key, each
  document under its own id) and holds at most one document for a path. If, after one run of
  the added handler on that path, the lookup by path finds a live document, then a second run
  on the same path changes nothing (it skips because a document already exists for that
  exact path) and the store holds exactly one document for the path.
\<close>

theorem handleFileAdded_twice:
  assumes "keyed_by d_id (store_metadata (w_store w))"
    and "length (documents_at p (w_store w)) \<le> 1"
    and "live_at p (w_store (handleFileAdded X fx1 p w))"
  shows "handleFileAdded X fx2 p (handleFileAdded X fx1 p w) = handleFileAdded X fx1 p w \<and>
         length (documents_at p (w_store (handleFileAdded X fx2 p (handleFileAdded X fx1 p w)))) = 1"
proof -
  have same: "handleFileAdded X fx2 p (handleFileAdded X fx1 p w) = handleFileAdded X fx1 p w"
    using assms(3) by (rule handleFileAdded_live)
  have "length (documents_at p (w_store (handleFileAdded X fx1 p w))) \<le> 1"
    using assms(1,2) by (rule handleFileAdded_at_most_one)
  moreover have "documents_at p (w_store (handleFileAdded X fx1 p w)) \<noteq> []"
    using assms(3) by (rule live_at_nonempty)
  ultimately have "length (documents_at p (w_store (handleFileAdded X fx1 p w))) = 1"
    by (cases "documents_at p (w_store (handleFileAdded X fx1 p w))") auto
  with same show ?thesis by simp
qed


theorem handleFileAdded_twice_witness:
  "keyed_by d_id (store_metadata (w_store demo_world)) \<and>
   length (documents_at (js ''/docs/a.txt'') (w_store demo_world)) \<le> 1 \<and>
   live_at (js ''/docs/a.txt'')
     (w_store (handleFileAdded demo_externals (demo_added_fx ''id1'') (js ''/docs/a.txt'') demo_world)) \<and>
   handleFileAdded demo_externals (demo_added_fx ''id2'') (js ''/docs/a.txt'')
     (handleFileAdded demo_externals (demo_added_fx ''id1'') (js ''/docs/a.txt'') demo_world) =
   handleFileAdded demo_externals (demo_added_fx ''id1'') (js ''/docs/a.txt'') demo_world \<and>
   length (documents_at (js ''/docs/a.txt'')
     (w_store (handleFileAdded demo_externals (demo_added_fx ''id2'') (js ''/docs/a.txt'')
        (handleFileAdded demo_externals (demo_added_fx ''id1'') (js ''/docs/a.txt'') demo_world)))) = 1"
proof -
  have k: "keyed_by d_id (store_metadata (w_store demo_world))"
    by (simp add: demo_world_def empty_store_def keyed_by_def)
  have one: "length (documents_at (js ''/docs/a.txt'') (w_store demo_world)) \<le> 1"
    by (simp add: demo_world_def empty_store_def documents_at_def)
  have live: "live_at (js ''/docs/a.txt'')
     (w_store (handleFileAdded demo_externals (demo_added_fx ''id1'') (js ''/docs/a.txt'') demo_world))"
    by code_simp
  show ?thesis
    using k one live handleFileAdded_twice [OF k one live, of "demo_added_fx ''id2''"]
    by blast
qed

theorem handleFileAdded_duplicates_counterexample:
  "live_at (js ''/docs/a.txt'')
     (w_store (handleFileAdded demo_externals (demo_added_fx ''id3'') (js ''/docs/a.txt'') dup_world)) \<and>
   length (documents_at (js ''/docs/a.txt'')
     (w_store (handleFileAdded demo_externals (demo_added_fx ''id4'') (js ''/docs/a.txt'')
        (handleFileAdded demo_externals (demo_added_fx ''id3'') (js ''/docs/a.txt'') dup_world)))) = 2"
proof -
  have l: "live_at (js ''/docs/a.txt'') (w_store dup_world)" by code_simp
  have n: "length (documents_at (js ''/docs/a.txt'') (w_store dup_world)) = 2" by code_simp
  show ?thesis using l n by (simp add: handleFileAdded_live)
qed

section \<open>The map discipline is an invariant\<close>

text \<open>
  The hypothesis \<open>keyed_by\<close> of the theorems above holds of the empty maps and is kept by
  every operation that writes the maps.
\<close>

lemma keyed_by_update:
  "keyed_by ident m \<Longrightarrow> ident v = k \<Longrightarrow> keyed_by ident (AList.update k v m)"
proof -
  assume a: "keyed_by ident m" and b: "ident v = k"
  have "list_all (\<lambda>(k, v). ident v = k) m \<Longrightarrow> list_all (\<lambda>(k, v). ident v = k) (AList.update k v m)"
    using b by (induction m) auto
  with a show ?thesis by (simp add: keyed_by_def distinct_update)
qed

lemma keyed_by_delete: "keyed_by ident m \<Longrightarrow> keyed_by ident (AList.delete k m)"
proof -
  assume a: "keyed_by ident m"
  then have "distinct (map fst (AList.delete k m))"
    by (simp add: keyed_by_def distinct_delete)
  moreover have "list_all (\<lambda>(k, v). ident v = k) (AList.delete k m)"
    using a by (auto simp: keyed_by_def list_all_iff AList.delete_eq)
  ultimately show ?thesis by (simp add: keyed_by_def)
qed

lemma keyed_by_fold_update:
  "keyed_by ident m \<Longrightarrow> keyed_by ident (fold (\<lambda>x m. AList.update (ident (f x)) (f x) m) xs m)"
  by (induction xs arbitrary: m) (simp_all add: keyed_by_update)

lemma keyed_by_fold_entries:
  "keyed_by ident m \<Longrightarrow> keyed_by ident (fold (\<lambda>x m. AList.update (ident x) x m) xs m)"
  by (induction xs arbitrary: m) (simp_all add: keyed_by_update)

lemma keyed_by_addDocument:
  "keyed_by d_id (store_metadata st) \<Longrightarrow>
     keyed_by d_id (store_metadata (snd (DocumentStore_addDocument fx p c ty md st)))"
  by (simp add: DocumentStore_addDocument_def Let_def saveMetadata_def keyed_by_update)

lemma keyed_by_updateDocument:
  assumes "keyed_by d_id (store_metadata st)"
  shows "keyed_by d_id (store_metadata (snd (DocumentStore_updateDocument now sok mok i upd st)))"
proof (cases "map_of (store_metadata st) i")
  case None
  with assms show ?thesis by (simp add: DocumentStore_updateDocument_def)
next
  case (Some d)
  with assms have "d_id (updated_document now d upd) = i"
    by (simp add: updated_document_def keyed_by_lookup)
  with assms Some show ?thesis
    by (simp add: DocumentStore_updateDocument_def Let_def saveMetadata_def keyed_by_update)
qed

lemma keyed_by_getDocumentByPath:
  "keyed_by d_id (store_metadata st) \<Longrightarrow>
     keyed_by d_id (store_metadata (snd (getDocumentByPath ok p st)))"
  by (simp add: getDocumentByPath_def evict_def saveMetadata_def keyed_by_delete
      split: option.splits)

lemma keyed_by_handleFileAdded:
  assumes "keyed_by d_id (store_metadata (w_store w))"
  shows "keyed_by d_id (store_metadata (w_store (handleFileAdded X fx p w)))"
proof (cases "isSupported X p")
  case False
  with assms show ?thesis by (simp add: handleFileAdded_def)
next
  case True
  obtain r store1 where g: "getDocumentByPath (evict_write_ok fx) p (w_store w) = (r, store1)"
    by (cases "getDocumentByPath (evict_write_ok fx) p (w_store w)")
  with keyed_by_getDocumentByPath [OF assms, of "evict_write_ok fx" p]
  have k1: "keyed_by d_id (store_metadata store1)" by simp
  show ?thesis
  proof (cases r)
    case (Inr d)
    with True g k1 show ?thesis by (simp add: handleFileAdded_def)
  next
    case (Inl e)
    show ?thesis
    proof (cases "processed fx")
      case failed: (Inl e')
      with True g Inl k1 show ?thesis by (simp add: handleFileAdded_def)
    next
      case (Inr pf)
      have "w_store (handleFileAdded X fx p w) =
          snd (DocumentStore_addDocument (add_fx fx) p (pf_content pf) (pf_type pf)
                 (pf_metadata pf) store1)"
        using True g Inl Inr
        by (simp add: handleFileAdded_def split: prod.splits sum.splits)
      with k1 show ?thesis by (simp add: keyed_by_addDocument)
    qed
  qed
qed

lemma keyed_by_index_operations:
  assumes "keyed_by e_id (documents st)"
  shows "keyed_by e_id (documents (snd (SearchIndex_addDocument X ok doc st)))"
    and "keyed_by e_id (documents (snd (removeDocument X ok i st)))"
    and "keyed_by e_id (documents (snd (rebuildFromDocuments X ok docs st)))"
    and "keyed_by e_id (documents (loadIndex st))"
proof -
  have e: "keyed_by e_id ([] :: (jsstring \<times> IndexEntry) list)" by (simp add: keyed_by_def)
  show "keyed_by e_id (documents (snd (SearchIndex_addDocument X ok doc st)))"
    using assms
    by (simp add: SearchIndex_addDocument_def snd_finish documents_rebuildIndex keyed_by_update
        to_entry_def)
  show "keyed_by e_id (documents (snd (removeDocument X ok i st)))"
    using assms
    by (simp add: removeDocument_def snd_finish documents_rebuildIndex keyed_by_delete)
  have "keyed_by e_id (fold (\<lambda>doc m. AList.update (e_id (to_entry doc)) (to_entry doc) m) docs [])"
    using e by (rule keyed_by_fold_update)
  then show "keyed_by e_id (documents (snd (rebuildFromDocuments X ok docs st)))"
    by (simp add: rebuildFromDocuments_def snd_finish documents_rebuildIndex to_entry_def)
  have "keyed_by e_id (fold (\<lambda>d m. AList.update (e_id d) d m) ds [])"
    for ds :: "IndexEntry list"
    using e by (rule keyed_by_fold_entries)
  then show "keyed_by e_id (documents (loadIndex st))"
    using e by (simp add: loadIndex_def split: option.splits)
qed

end
